theory Spec2Isabelle
  imports Complex_Main "HOL-Library.Log_Nat" "HOL-Library.Sublist"
begin

section \<open>Values\<close>

text \<open>
  The orchestrator of \<^verbatim>\<open>src/index.ts\<close> is embedded function by function. Every module it
  imports (wallet, trading, AI, social clients, templates, persistence) lies outside the
  file and is taken as a parameter: an oracle that answers a call from the history of
  calls made so far, either with a value or with a thrown error.

  JavaScript numbers are IEEE doubles. A finite double is given by its value, a rational;
  the result of an arithmetic operation is the exact result rounded to the nearest double,
  or an infinity, or NaN. The sign of zero is not modelled, and the numbers that a
  collaborator or the configuration delivers are taken to be finite, the prices and the
  P&L of a trade row apart: a price, as a market, a price fetch or a trade row delivers
  it, is any double, NaN and the infinities included, and so is the \<open>pnl_bps\<close> of a trade
  row. Times are integral milliseconds, on which the arithmetic of doubles is exact.
\<close>

type_synonym number = rat
type_synonym error = string

datatype jsnumber = Finite rat | PosInfinity | NegInfinity | NaN

type_synonym price = jsnumber

datatype position = YES | NO
datatype action = BUY | SELL | HOLD
datatype platform = TWITTER | FARCASTER
datatype post_type = TRADE_ENTRY | TRADE_EXIT | DAILY_SUMMARY | REPLY

text \<open>A property of an object read from the database may be missing or null.\<close>

datatype 'a nullable = Undefined | Null | Value 'a

subsection \<open>Rounding to a double\<close>

definition signed_infinity :: "bool \<Rightarrow> jsnumber" where
  "signed_infinity positive = (if positive then PosInfinity else NegInfinity)"

text \<open>
  The binary exponent of a rational other than zero: the \<open>e\<close> with
  \<open>2^e \<le> \<bar>x\<bar> < 2^(e+1)\<close>, found from the bit lengths of numerator and denominator.
\<close>

definition exponent :: "rat \<Rightarrow> int" where
  "exponent x =
     (case quotient_of \<bar>x\<bar> of
        (n, d) \<Rightarrow> (let k = bitlen n - bitlen d in if 2 powi k \<le> \<bar>x\<bar> then k else k - 1))"

text \<open>The nearest integer, a tie going to the even one.\<close>

definition roundEven :: "rat \<Rightarrow> int" where
  "roundEven x =
     (let f = \<lfloor>x\<rfloor>; r = x - of_int f
      in if r < 1 / 2 then f else if 1 / 2 < r then f + 1 else if even f then f else f + 1)"

text \<open>
  \<open>fl x\<close> is the double nearest to \<open>x\<close>, a tie going to the even significand. The
  significand \<open>m\<close> has 53 bits and counts multiples of \<open>q\<close>, which is \<open>2^(e-52)\<close> and not
  less than \<open>2^(-1074)\<close>, the step of the subnormal numbers. The rounded value is
  \<open>m * q\<close>; it has reached \<open>2^1024\<close>, and the result is an infinity, when \<open>e\<close> is 1024 or
  more, or \<open>e\<close> is 1023 and the significand has been rounded up to \<open>2^53\<close>.
\<close>

definition fl :: "rat \<Rightarrow> jsnumber" where
  "fl x =
     (if x = 0 then Finite 0
      else
        (let e = exponent x;
             q = 2 powi (max (e - 52) (- 1074));
             m = roundEven (\<bar>x\<bar> / q)
         in if 1024 \<le> e \<or> (e = 1023 \<and> m = 2 ^ 53) then signed_infinity (0 < x)
            else Finite (sgn x * of_int m * q)))"

text \<open>The double that a decimal literal of the source denotes.\<close>

definition literal :: "rat \<Rightarrow> number" where
  "literal x = (case fl x of Finite y \<Rightarrow> y | _ \<Rightarrow> 0)"

subsection \<open>Arithmetic\<close>

text \<open>\<^verbatim>\<open>a + b\<close>, \<^verbatim>\<open>a - b\<close>, \<^verbatim>\<open>a * b\<close> and \<^verbatim>\<open>a / b\<close>.\<close>

definition js_plus :: "jsnumber \<Rightarrow> jsnumber \<Rightarrow> jsnumber" where
  "js_plus a b =
     (case a of
        Finite x \<Rightarrow>
          (case b of Finite y \<Rightarrow> fl (x + y) | PosInfinity \<Rightarrow> PosInfinity
           | NegInfinity \<Rightarrow> NegInfinity | NaN \<Rightarrow> NaN)
      | PosInfinity \<Rightarrow> (case b of NegInfinity \<Rightarrow> NaN | NaN \<Rightarrow> NaN | _ \<Rightarrow> PosInfinity)
      | NegInfinity \<Rightarrow> (case b of PosInfinity \<Rightarrow> NaN | NaN \<Rightarrow> NaN | _ \<Rightarrow> NegInfinity)
      | NaN \<Rightarrow> NaN)"

fun js_negate :: "jsnumber \<Rightarrow> jsnumber" where
  "js_negate (Finite x) = Finite (- x)"
| "js_negate PosInfinity = NegInfinity"
| "js_negate NegInfinity = PosInfinity"
| "js_negate NaN = NaN"

definition js_minus :: "jsnumber \<Rightarrow> jsnumber \<Rightarrow> jsnumber" where
  "js_minus a b = js_plus a (js_negate b)"

fun nonnegative :: "jsnumber \<Rightarrow> bool" where
  "nonnegative (Finite x) = (0 \<le> x)"
| "nonnegative PosInfinity = True"
| "nonnegative NegInfinity = False"
| "nonnegative NaN = False"

fun is_zero :: "jsnumber \<Rightarrow> bool" where
  "is_zero (Finite x) = (x = 0)"
| "is_zero a = False"

definition js_times :: "jsnumber \<Rightarrow> jsnumber \<Rightarrow> jsnumber" where
  "js_times a b =
     (case (a, b) of
        (Finite x, Finite y) \<Rightarrow> fl (x * y)
      | _ \<Rightarrow>
          if a = NaN \<or> b = NaN \<or> is_zero a \<or> is_zero b then NaN
          else signed_infinity (nonnegative a = nonnegative b))"

definition js_divide :: "jsnumber \<Rightarrow> jsnumber \<Rightarrow> jsnumber" where
  "js_divide a b =
     (case (a, b) of
        (Finite x, Finite y) \<Rightarrow>
          if y \<noteq> 0 then fl (x / y) else if x = 0 then NaN else signed_infinity (0 < x)
      | (Finite x, _) \<Rightarrow> if b = NaN then NaN else Finite 0
      | (_, Finite y) \<Rightarrow> if a = NaN then NaN else signed_infinity (nonnegative a = (0 \<le> y))
      | _ \<Rightarrow> NaN)"

text \<open>\<^verbatim>\<open>Math.round\<close>: the nearest integer, a tie going towards plus infinity.\<close>

fun Math_round :: "jsnumber \<Rightarrow> jsnumber" where
  "Math_round (Finite x) = Finite (of_int \<lfloor>x + 1 / 2\<rfloor>)"
| "Math_round PosInfinity = PosInfinity"
| "Math_round NegInfinity = NegInfinity"
| "Math_round NaN = NaN"

text \<open>\<^verbatim>\<open>a <= k\<close> and \<^verbatim>\<open>a >= k\<close> for a finite \<open>k\<close>; a comparison with NaN is false.\<close>

fun js_le :: "jsnumber \<Rightarrow> rat \<Rightarrow> bool" where
  "js_le (Finite x) k = (x \<le> k)"
| "js_le PosInfinity k = False"
| "js_le NegInfinity k = True"
| "js_le NaN k = False"

fun js_ge :: "jsnumber \<Rightarrow> rat \<Rightarrow> bool" where
  "js_ge (Finite x) k = (k \<le> x)"
| "js_ge PosInfinity k = True"
| "js_ge NegInfinity k = False"
| "js_ge NaN k = False"

text \<open>
  \<^verbatim>\<open>Math.round(((currentPrice - entry_price) / entry_price) * 10000)\<close>, the expression of
  lines 293 and 466.
\<close>

definition pnlBps :: "price \<Rightarrow> price \<Rightarrow> jsnumber" where
  "pnlBps currentPrice entry_price =
     Math_round
       (js_times (js_divide (js_minus currentPrice entry_price) entry_price) (Finite 10000))"

text \<open>Truthiness of a value that is a string, null or undefined.\<close>

fun truthy :: "string option \<Rightarrow> bool" where
  "truthy None = False"
| "truthy (Some s) = (s \<noteq> [])"

section \<open>Data\<close>

text \<open>
  A trade row as the queries deliver it, with the properties \<^verbatim>\<open>index.ts\<close> reads
  (\<open>id\<close> and \<open>position\<close> are written \<open>trade_id\<close> and \<open>trade_position\<close>).
\<close>

record trade =
  trade_id :: nat
  market_id :: string
  market_name :: string
  trade_position :: position
  amount_eth :: "number nullable"
  amount_usd :: "number nullable"
  entry_price :: price
  entry_timestamp :: int
  pnl_bps :: "jsnumber nullable"

text \<open>A decision of the analyzer, the element type of \<^verbatim>\<open>executeTradingDecisions\<close>.\<close>

record decision =
  action :: action
  marketId :: string
  marketName :: string
  position :: position
  amountEth :: number
  reasoning :: string
  confidence :: number

record priceSnapshot =
  yesPrice :: price
  noPrice :: price

text \<open>What \<^verbatim>\<open>executeTrade\<close> and \<^verbatim>\<open>closePosition\<close> resolve to.\<close>

record tradeResult =
  resolvedMarketId :: "string option"
  actualPrice :: price
  txHash :: string
  timestamp :: int

record closeResult =
  close_txHash :: string
  close_timestamp :: int

text \<open>The object handed to \<^verbatim>\<open>createTrade\<close> (status is the literal OPEN).\<close>

record newTrade =
  new_market_id :: string
  new_market_name :: string
  new_position :: position
  new_amount_eth :: number
  new_amount_usd :: jsnumber
  new_entry_price :: price
  new_entry_tx_hash :: string
  new_entry_timestamp :: int

text \<open>The object handed to \<^verbatim>\<open>updateTrade\<close> (status is the literal CLOSED).\<close>

record tradePatch =
  exit_price :: price
  exit_tx_hash :: string
  exit_timestamp :: int
  patch_pnl_bps :: jsnumber

text \<open>The two \<^verbatim>\<open>postParams\<close> objects of \<^verbatim>\<open>executeTradingDecisions\<close>.\<close>

record entryPostParams =
  entry_marketName :: string
  entry_position :: position
  entry_amountEth :: number
  entry_price_paid :: price
  entry_txHash :: string
  entry_reasoning :: string
  entry_confidence :: number
  entry_post_timestamp :: int

record exitPostParams =
  exit_marketName :: string
  exit_position :: position
  exit_entryPrice :: price
  exit_exitPrice :: price
  exit_pnlBps :: jsnumber
  exit_amountEth :: number
  exit_txHash :: string
  exit_post_timestamp :: int
  exit_exitReason :: string

text \<open>The object handed to \<^verbatim>\<open>recordSocialPost\<close>; the post id may be null.\<close>

record socialPost =
  platform :: platform
  post_id :: "string option"
  content :: string
  post_type :: post_type
  related_trade_id :: "nat option"
  post_timestamp :: int

record summaryParams =
  totalValue :: number
  dailyPnlBps :: jsnumber
  tradesToday :: nat
  openPositions :: nat

record portfolioSnapshot =
  snapshot_timestamp :: int
  total_value_eth :: number
  open_positions_count :: nat
  daily_pnl_bps :: jsnumber

text \<open>Mentions as the two clients deliver them.\<close>

record twitterMention =
  tw_id :: string
  tw_author :: string
  tw_text :: string
  tw_createdAt :: int

record farcasterMention =
  fc_hash :: string
  fc_author :: string
  fc_text :: string
  fc_timestamp :: int

text \<open>A row of the mention table, and the object handed to \<^verbatim>\<open>recordMention\<close>.\<close>

record mentionInput =
  in_platform :: platform
  in_mention_id :: string
  in_author :: string
  in_content :: string
  in_replied :: bool
  in_timestamp :: int

record mention =
  row_id :: nat
  row_platform :: platform
  mention_id :: string
  row_author :: string
  row_content :: string
  replied :: bool
  row_timestamp :: int
  reply_id :: "string option"

text \<open>Markets, the analysis and the views handed to the analyzer.\<close>

record market =
  m_id :: string
  m_name :: string
  m_yesPrice :: price
  m_noPrice :: price
  m_volume24h :: number

record positionView =
  pv_marketId :: string
  pv_marketName :: string
  pv_position :: position
  pv_entryPrice :: price
  pv_currentPrice :: price
  pv_pnlBps :: jsnumber

record analysis =
  decisions :: "decision list"
  marketCommentary :: "string option"
  riskAssessment :: "string option"
  portfolioRecommendation :: "string option"

record reflectionParams =
  commentary :: "string option"
  refl_riskAssessment :: "string option"
  refl_portfolioRecommendation :: "string option"
  refl_timestamp :: int

record roundParams =
  portfolioEth :: number
  round_openPositions :: nat
  marketsScanned :: nat
  decisionsCount :: nat
  tradesExecuted :: nat
  hasCommentary :: bool

record iterationResult =
  ok :: bool
  message :: string

section \<open>Collaborator calls\<close>

text \<open>One constructor for each imported function, with the arguments of the call.\<close>

datatype call =
    HasSufficientBalance
  | GetBalance
  | PostTweetWithRateLimit string
  | PostCastWithRateLimit string
  | FetchTwitterMentions
  | FetchFarcasterMentions
  | GetUnprocessedMentions
  | RecordMention mentionInput
  | GenerateReply string
  | ReplyToTweet string string
  | ReplyToCast string string
  | MarkMentionReplied nat string
  | RecordSocialPost socialPost
  | Sleep int
  | ExecuteTrade string string position number price
  | CreateTrade newTrade
  | GetOpenTrades
  | GetAllTrades nat
  | GetMarketPrice string position
  | ClosePosition string position price price jsnumber string
  | UpdateTrade nat tradePatch
  | GenerateTradeEntryPostForPlatform entryPostParams platform
  | GenerateTradeExitPostForPlatform exitPostParams platform
  | GenerateDailySummaryForPlatform summaryParams platform
  | GenerateMarketReflectionPostForPlatform reflectionParams platform
  | GenerateRoundSummaryForPlatform roundParams platform
  | CreatePortfolioSnapshot portfolioSnapshot
  | FetchMarkets
  | FetchNewsHeadlines nat
  | AnalyzeMarkets number "positionView list" "market list" "string list"
  | ProcessNotableTrades
  | SendTip string number

section \<open>State and environment\<close>

text \<open>
  The module-level variables \<^verbatim>\<open>lastDailySummary\<close> and \<^verbatim>\<open>lastTipTime\<close>, the mention table
  and the log of the collaborator calls made so far, oldest first.
\<close>

record state =
  lastDailySummary :: int
  lastTipTime :: int
  mentions :: "mention list"
  calls :: "call list"

record config =
  disableTips :: bool
  tipRecipients :: "string list"
  disableMentions :: bool
  ethUsdPrice :: number
  stopLossBps :: number
  takeProfitBps :: number
  farcaster_signerUuid :: "string option"
  tipIntervalMs :: int
  tipAmountEth :: number
  loopIntervalMs :: int

text \<open>
  The environment: the configuration, the pure helpers and templates of other modules,
  the clock, the random source, and one oracle for each asynchronous collaborator. An
  oracle maps the call history to \<open>Inl\<close> of the thrown error or \<open>Inr\<close> of the value.
  The price fetches are the one collaborator of which several calls are in flight at a
  time; for them \<open>getMarketPrice_settles\<close> gives the instant at which the promise of
  the call settles.
\<close>

record env =
  config :: config
  weiToEth :: "int \<Rightarrow> number"
  lowBalanceAlert :: "int \<Rightarrow> string"
  trim :: "string \<Rightarrow> string"
  Date_now :: "call list \<Rightarrow> int"
  startOfToday :: "call list \<Rightarrow> int"
  Math_random :: "call list \<Rightarrow> rat"
  hasSufficientBalance :: "call list \<Rightarrow> error + bool"
  getBalance :: "call list \<Rightarrow> error + int"
  postTweetWithRateLimit :: "string \<Rightarrow> call list \<Rightarrow> error + string option"
  postCastWithRateLimit :: "string \<Rightarrow> call list \<Rightarrow> error + string option"
  fetchTwitterMentions :: "call list \<Rightarrow> error + twitterMention list"
  fetchFarcasterMentions :: "call list \<Rightarrow> error + farcasterMention list"
  mentionStoreFailure :: "call list \<Rightarrow> error option"
  generateReply :: "string \<Rightarrow> call list \<Rightarrow> error + string"
  replyToTweet :: "string \<Rightarrow> string \<Rightarrow> call list \<Rightarrow> error + string"
  replyToCast :: "string \<Rightarrow> string \<Rightarrow> call list \<Rightarrow> error + string"
  recordSocialPost :: "socialPost \<Rightarrow> call list \<Rightarrow> error + unit"
  executeTrade :: "string \<Rightarrow> string \<Rightarrow> position \<Rightarrow> number \<Rightarrow> price \<Rightarrow> call list
    \<Rightarrow> error + tradeResult"
  createTrade :: "newTrade \<Rightarrow> call list \<Rightarrow> error + trade"
  getOpenTrades :: "call list \<Rightarrow> error + trade list"
  getAllTrades :: "nat \<Rightarrow> call list \<Rightarrow> error + trade list"
  getMarketPrice :: "string \<Rightarrow> position \<Rightarrow> call list \<Rightarrow> error + price"
  getMarketPrice_settles :: "string \<Rightarrow> position \<Rightarrow> call list \<Rightarrow> nat"
  closePosition :: "string \<Rightarrow> position \<Rightarrow> price \<Rightarrow> price \<Rightarrow> jsnumber \<Rightarrow> string \<Rightarrow> call list
    \<Rightarrow> error + closeResult"
  updateTrade :: "nat \<Rightarrow> tradePatch \<Rightarrow> call list \<Rightarrow> error + unit"
  generateTradeEntryPostForPlatform :: "entryPostParams \<Rightarrow> platform \<Rightarrow> call list \<Rightarrow> error + string"
  generateTradeExitPostForPlatform :: "exitPostParams \<Rightarrow> platform \<Rightarrow> call list \<Rightarrow> error + string"
  generateDailySummaryForPlatform :: "summaryParams \<Rightarrow> platform \<Rightarrow> call list \<Rightarrow> error + string"
  generateMarketReflectionPostForPlatform :: "reflectionParams \<Rightarrow> platform \<Rightarrow> call list
    \<Rightarrow> error + string"
  generateRoundSummaryForPlatform :: "roundParams \<Rightarrow> platform \<Rightarrow> call list \<Rightarrow> error + string"
  createPortfolioSnapshot :: "portfolioSnapshot \<Rightarrow> call list \<Rightarrow> error + unit"
  fetchMarkets :: "call list \<Rightarrow> error + market list"
  fetchNewsHeadlines :: "nat \<Rightarrow> call list \<Rightarrow> error + string list"
  analyzeMarkets :: "number \<Rightarrow> positionView list \<Rightarrow> market list \<Rightarrow> string list \<Rightarrow> call list
    \<Rightarrow> error + analysis"
  processNotableTrades :: "call list \<Rightarrow> error + unit"
  sendTip :: "string \<Rightarrow> number \<Rightarrow> call list \<Rightarrow> error + unit"

subsection \<open>Awaiting, sequencing, catching\<close>

type_synonym 'a outcome = "(error + 'a) \<times> state"

text \<open>An awaited call: the oracle answers from the history, and the call is logged.\<close>

definition invoke :: "call \<Rightarrow> (call list \<Rightarrow> error + 'a) \<Rightarrow> state \<Rightarrow> 'a outcome" where
  "invoke c oracle s = (oracle (calls s), s\<lparr>calls := calls s @ [c]\<rparr>)"

text \<open>Sequencing: a thrown error skips the rest of the block.\<close>

definition bindE :: "'a outcome \<Rightarrow> ('a \<Rightarrow> state \<Rightarrow> 'b outcome) \<Rightarrow> 'b outcome" where
  "bindE m f = (case m of (Inl e, s) \<Rightarrow> (Inl e, s) | (Inr x, s) \<Rightarrow> f x s)"

text \<open>\<^verbatim>\<open>try { ... } catch (error) { logger.error(...) }\<close>: the error is dropped.\<close>

definition tryCatch :: "'a outcome \<Rightarrow> state" where
  "tryCatch m = snd m"

section \<open>Health check\<close>

definition healthCheck :: "env \<Rightarrow> state \<Rightarrow> bool \<times> state" where
  "healthCheck env s =
     (case
        bindE (invoke HasSufficientBalance (hasSufficientBalance env) s) (\<lambda>hasBalance s1.
          if \<not> hasBalance then
            bindE (invoke GetBalance (getBalance env) s1) (\<lambda>balance s2.
              let alertMessage = lowBalanceAlert env balance in
              (Inr False,
               tryCatch (invoke (PostTweetWithRateLimit alertMessage)
                                (postTweetWithRateLimit env alertMessage) s2)))
          else (Inr True, s1))
      of (Inl e, s') \<Rightarrow> (False, s')
       | (Inr healthy, s') \<Rightarrow> (healthy, s'))"

section \<open>Mention responder\<close>

text \<open>
  Modelled from the spec: the mention queries \<^verbatim>\<open>getUnprocessedMentions\<close>,
  \<^verbatim>\<open>recordMention\<close> and \<^verbatim>\<open>markMentionReplied\<close> of \<^verbatim>\<open>src/database/queries.ts\<close>, which
  are missing from the sources. The spec has the responder dedup "against persisted
  mention records by (platform, mention_id)", a row being "created on first sighting,
  mutated once to mark replied": the query delivers the persisted rows, recording
  appends a row with a fresh id, marking sets \<open>replied\<close> and the reply id of the row with
  the given id. Each of the three may throw instead, as the oracle
  \<open>mentionStoreFailure\<close> decides, and then leaves the table as it is.
\<close>

definition getUnprocessedMentions :: "env \<Rightarrow> state \<Rightarrow> mention list outcome" where
  "getUnprocessedMentions env s =
     invoke GetUnprocessedMentions
       (\<lambda>h. case mentionStoreFailure env h of Some e \<Rightarrow> Inl e | None \<Rightarrow> Inr (mentions s)) s"

definition recordMention :: "env \<Rightarrow> mentionInput \<Rightarrow> state \<Rightarrow> unit outcome" where
  "recordMention env m s =
     (case mentionStoreFailure env (calls s) of
        Some e \<Rightarrow> (Inl e, s\<lparr>calls := calls s @ [RecordMention m]\<rparr>)
      | None \<Rightarrow>
          (Inr (),
           s\<lparr>mentions := mentions s @
                [\<lparr>row_id = length (mentions s), row_platform = in_platform m,
                  mention_id = in_mention_id m, row_author = in_author m,
                  row_content = in_content m, replied = in_replied m,
                  row_timestamp = in_timestamp m, reply_id = None\<rparr>],
              calls := calls s @ [RecordMention m]\<rparr>))"

definition markMentionReplied :: "env \<Rightarrow> nat \<Rightarrow> string \<Rightarrow> state \<Rightarrow> unit outcome" where
  "markMentionReplied env i replyId s =
     (case mentionStoreFailure env (calls s) of
        Some e \<Rightarrow> (Inl e, s\<lparr>calls := calls s @ [MarkMentionReplied i replyId]\<rparr>)
      | None \<Rightarrow>
          (Inr (),
           s\<lparr>mentions :=
                map (\<lambda>r. if row_id r = i then r\<lparr>replied := True, reply_id := Some replyId\<rparr> else r)
                    (mentions s),
              calls := calls s @ [MarkMentionReplied i replyId]\<rparr>))"

text \<open>\<^verbatim>\<open>await recordSocialPost({...})\<close>.\<close>

definition recordPost :: "env \<Rightarrow> socialPost \<Rightarrow> state \<Rightarrow> unit outcome" where
  "recordPost env p s = invoke (RecordSocialPost p) (recordSocialPost env p) s"

text \<open>The body of the loop over the Twitter mentions (lines 79 to 121), with its catch.\<close>

definition processTwitterMention :: "env \<Rightarrow> twitterMention \<Rightarrow> state \<Rightarrow> state" where
  "processTwitterMention env mention s =
     tryCatch
       (bindE (getUnprocessedMentions env s) (\<lambda>existing s1.
          let alreadyProcessed =
                list_ex (\<lambda>m. mention_id m = tw_id mention \<and> row_platform m = TWITTER) existing
          in
          if \<not> alreadyProcessed then
            bindE (recordMention env
                     \<lparr>in_platform = TWITTER, in_mention_id = tw_id mention,
                      in_author = tw_author mention, in_content = tw_text mention,
                      in_replied = False, in_timestamp = tw_createdAt mention\<rparr> s1) (\<lambda>_ s2.
            bindE (invoke (GenerateReply (tw_text mention))
                          (generateReply env (tw_text mention)) s2) (\<lambda>reply s3.
            bindE (invoke (ReplyToTweet (tw_id mention) reply)
                          (replyToTweet env (tw_id mention) reply) s3) (\<lambda>replyId s4.
            bindE (getUnprocessedMentions env s4) (\<lambda>found s5.
            bindE (case find (\<lambda>m. mention_id m = tw_id mention) found of
                     Some dbMention \<Rightarrow> markMentionReplied env (row_id dbMention) replyId s5
                   | None \<Rightarrow> (Inr (), s5)) (\<lambda>_ s6.
            bindE (recordPost env
                     \<lparr>platform = TWITTER, post_id = Some replyId, content = reply,
                      post_type = REPLY, related_trade_id = None,
                      post_timestamp = Date_now env (calls s6)\<rparr> s6) (\<lambda>_ s7.
            invoke (Sleep 2000) (\<lambda>_. Inr ()) s7))))))
          else (Inr (), s1)))"

text \<open>The body of the loop over the Farcaster mentions (lines 127 to 163).\<close>

definition processFarcasterMention :: "env \<Rightarrow> farcasterMention \<Rightarrow> state \<Rightarrow> state" where
  "processFarcasterMention env mention s =
     tryCatch
       (bindE (getUnprocessedMentions env s) (\<lambda>existing s1.
          let alreadyProcessed =
                list_ex (\<lambda>m. mention_id m = fc_hash mention \<and> row_platform m = FARCASTER) existing
          in
          if \<not> alreadyProcessed then
            bindE (recordMention env
                     \<lparr>in_platform = FARCASTER, in_mention_id = fc_hash mention,
                      in_author = fc_author mention, in_content = fc_text mention,
                      in_replied = False, in_timestamp = fc_timestamp mention\<rparr> s1) (\<lambda>_ s2.
            bindE (invoke (GenerateReply (fc_text mention))
                          (generateReply env (fc_text mention)) s2) (\<lambda>reply s3.
            bindE (invoke (ReplyToCast (fc_hash mention) reply)
                          (replyToCast env (fc_hash mention) reply) s3) (\<lambda>replyHash s4.
            bindE (getUnprocessedMentions env s4) (\<lambda>found s5.
            bindE (case find (\<lambda>m. mention_id m = fc_hash mention) found of
                     Some dbMention \<Rightarrow> markMentionReplied env (row_id dbMention) replyHash s5
                   | None \<Rightarrow> (Inr (), s5)) (\<lambda>_ s6.
            bindE (recordPost env
                     \<lparr>platform = FARCASTER, post_id = Some replyHash, content = reply,
                      post_type = REPLY, related_trade_id = None,
                      post_timestamp = Date_now env (calls s6)\<rparr> s6) (\<lambda>_ s7.
            invoke (Sleep 2000) (\<lambda>_. Inr ()) s7))))))
          else (Inr (), s1)))"

fun forEachTwitterMention :: "env \<Rightarrow> twitterMention list \<Rightarrow> state \<Rightarrow> state" where
  "forEachTwitterMention env [] s = s"
| "forEachTwitterMention env (mention # rest) s =
     forEachTwitterMention env rest (processTwitterMention env mention s)"

fun forEachFarcasterMention :: "env \<Rightarrow> farcasterMention list \<Rightarrow> state \<Rightarrow> state" where
  "forEachFarcasterMention env [] s = s"
| "forEachFarcasterMention env (mention # rest) s =
     forEachFarcasterMention env rest (processFarcasterMention env mention s)"

definition processMentions :: "env \<Rightarrow> state \<Rightarrow> state" where
  "processMentions env s =
     (if disableMentions (config env) then s
      else
        tryCatch
          (bindE (invoke FetchTwitterMentions (fetchTwitterMentions env) s) (\<lambda>twitterMentions s1.
           bindE (invoke FetchFarcasterMentions (fetchFarcasterMentions env)
                         (forEachTwitterMention env twitterMentions s1)) (\<lambda>farcasterMentions s2.
           (Inr (), forEachFarcasterMention env farcasterMentions s2)))))"

section \<open>Decision executor\<close>

text \<open>
  The publish-and-record step that follows each generated tweet (lines 241 to 251, 325
  to 335, 399 to 408): the post is recorded only when the returned id is truthy.
\<close>

definition tweetAndRecord :: "env \<Rightarrow> string \<Rightarrow> post_type \<Rightarrow> nat option \<Rightarrow> state \<Rightarrow> unit outcome" where
  "tweetAndRecord env tweetContent ptype related s =
     bindE (invoke (PostTweetWithRateLimit tweetContent)
                   (postTweetWithRateLimit env tweetContent) s) (\<lambda>tweetId s1.
       if truthy tweetId then
         recordPost env
           \<lparr>platform = TWITTER, post_id = tweetId, content = tweetContent, post_type = ptype,
            related_trade_id = related, post_timestamp = Date_now env (calls s1)\<rparr> s1
       else (Inr (), s1))"

text \<open>
  The publish-and-record step that follows each generated cast (lines 258 to 266, 342
  to 350, 415 to 422): the post is recorded with whatever the client returned.
\<close>

definition castAndRecord :: "env \<Rightarrow> string \<Rightarrow> post_type \<Rightarrow> nat option \<Rightarrow> state \<Rightarrow> unit outcome" where
  "castAndRecord env castContent ptype related s =
     bindE (invoke (PostCastWithRateLimit castContent)
                   (postCastWithRateLimit env castContent) s) (\<lambda>castHash s1.
       recordPost env
         \<lparr>platform = FARCASTER, post_id = castHash, content = castContent, post_type = ptype,
          related_trade_id = related, post_timestamp = Date_now env (calls s1)\<rparr> s1)"

text \<open>The two try blocks after a trade is opened (lines 239 to 269).\<close>

definition entryFanout :: "env \<Rightarrow> entryPostParams \<Rightarrow> nat \<Rightarrow> state \<Rightarrow> state" where
  "entryFanout env postParams tradeId s =
     (let s1 = tryCatch
                 (bindE (invoke (GenerateTradeEntryPostForPlatform postParams TWITTER)
                                (generateTradeEntryPostForPlatform env postParams TWITTER) s)
                    (\<lambda>tweetContent sa.
                       tweetAndRecord env tweetContent TRADE_ENTRY (Some tradeId) sa))
      in tryCatch
           (bindE (invoke (GenerateTradeEntryPostForPlatform postParams FARCASTER)
                          (generateTradeEntryPostForPlatform env postParams FARCASTER) s1)
              (\<lambda>castContent sa.
                 castAndRecord env castContent TRADE_ENTRY (Some tradeId) sa)))"

text \<open>The two try blocks after a trade is closed (lines 323 to 353).\<close>

definition exitFanout :: "env \<Rightarrow> exitPostParams \<Rightarrow> nat \<Rightarrow> state \<Rightarrow> state" where
  "exitFanout env postParams tradeId s =
     (let s1 = tryCatch
                 (bindE (invoke (GenerateTradeExitPostForPlatform postParams TWITTER)
                                (generateTradeExitPostForPlatform env postParams TWITTER) s)
                    (\<lambda>tweetContent sa.
                       tweetAndRecord env tweetContent TRADE_EXIT (Some tradeId) sa))
      in tryCatch
           (bindE (invoke (GenerateTradeExitPostForPlatform postParams FARCASTER)
                          (generateTradeExitPostForPlatform env postParams FARCASTER) s1)
              (\<lambda>castContent sa.
                 castAndRecord env castContent TRADE_EXIT (Some tradeId) sa)))"

text \<open>The BUY branch (lines 196 to 272); \<open>Inr\<close> means that \<open>executed\<close> is incremented.\<close>

definition buyDecision ::
  "env \<Rightarrow> (string \<Rightarrow> priceSnapshot option) \<Rightarrow> decision \<Rightarrow> state \<Rightarrow> unit outcome" where
  "buyDecision env marketPrices d s =
     (let priceSnapshot = marketPrices (marketId d);
          expectedPrice =
            (case priceSnapshot of
               None \<Rightarrow> None
             | Some ps \<Rightarrow> Some (if position d = YES then yesPrice ps else noPrice ps));
          amountUsd = js_times (Finite (amountEth d)) (Finite (ethUsdPrice (config env)));
          expected = (case expectedPrice of None \<Rightarrow> Finite 5000 | Some p \<Rightarrow> p)
      in
      bindE (invoke (ExecuteTrade (marketId d) (marketName d) (position d) (amountEth d) expected)
                    (executeTrade env (marketId d) (marketName d) (position d) (amountEth d)
                       expected) s) (\<lambda>result s1.
      let marketIdForDb = (case resolvedMarketId result of None \<Rightarrow> marketId d | Some r \<Rightarrow> r);
          row = \<lparr>new_market_id = marketIdForDb, new_market_name = marketName d,
                 new_position = position d, new_amount_eth = amountEth d,
                 new_amount_usd = amountUsd, new_entry_price = actualPrice result,
                 new_entry_tx_hash = txHash result, new_entry_timestamp = timestamp result\<rparr>
      in
      bindE (invoke (CreateTrade row) (createTrade env row) s1) (\<lambda>trade s2.
      let postParams =
            \<lparr>entry_marketName = marketName d, entry_position = position d,
             entry_amountEth = amountEth d, entry_price_paid = actualPrice result,
             entry_txHash = txHash result, entry_reasoning = reasoning d,
             entry_confidence = confidence d, entry_post_timestamp = timestamp result\<rparr>
      in (Inr (), entryFanout env postParams (trade_id trade) s2))))"

text \<open>The classification of lines 304 to 308.\<close>

definition exitReason :: "config \<Rightarrow> jsnumber \<Rightarrow> string" where
  "exitReason cfg pnl =
     (if js_le pnl (- stopLossBps cfg) then ''Stop-loss risk control hit.''
      else if js_ge pnl (takeProfitBps cfg) then ''Take-profit rule triggered.''
      else ''Signal shifted; trimming risk.'')"

text \<open>The fallback chain of \<^verbatim>\<open>amountUsd\<close> in the SELL branch (lines 280 to 283).\<close>

definition sellAmountUsd :: "env \<Rightarrow> decision \<Rightarrow> trade \<Rightarrow> jsnumber" where
  "sellAmountUsd env d tradeToClose =
     (case amount_usd tradeToClose of
        Value usd \<Rightarrow> Finite usd
      | _ \<Rightarrow>
          (case amount_eth tradeToClose of
             Undefined \<Rightarrow> js_times (Finite (amountEth d)) (Finite (ethUsdPrice (config env)))
           | Null \<Rightarrow> js_times (Finite 0) (Finite (ethUsdPrice (config env)))
           | Value eth \<Rightarrow> js_times (Finite eth) (Finite (ethUsdPrice (config env)))))"

text \<open>
  The SELL branch (lines 275 to 357); \<open>Inr True\<close> means that \<open>executed\<close> is incremented,
  \<open>Inr False\<close> that no open trade matched.
\<close>

definition sellDecision :: "env \<Rightarrow> decision \<Rightarrow> state \<Rightarrow> bool outcome" where
  "sellDecision env d s =
     bindE (invoke GetOpenTrades (getOpenTrades env) s) (\<lambda>openTrades s1.
       case find (\<lambda>t. market_id t = marketId d) openTrades of
         None \<Rightarrow> (Inr False, s1)
       | Some tradeToClose \<Rightarrow>
           bindE (invoke (GetMarketPrice (marketId d) (trade_position tradeToClose))
                         (getMarketPrice env (marketId d) (trade_position tradeToClose)) s1)
             (\<lambda>currentPrice s2.
           let amountUsd = sellAmountUsd env d tradeToClose in
           bindE (invoke (ClosePosition (market_name tradeToClose) (trade_position tradeToClose)
                            (entry_price tradeToClose) currentPrice amountUsd
                            (market_id tradeToClose))
                         (closePosition env (market_name tradeToClose)
                            (trade_position tradeToClose) (entry_price tradeToClose)
                            currentPrice amountUsd (market_id tradeToClose)) s2) (\<lambda>result s3.
           let pnl = pnlBps currentPrice (entry_price tradeToClose);
               patch = \<lparr>exit_price = currentPrice, exit_tx_hash = close_txHash result,
                        exit_timestamp = close_timestamp result, patch_pnl_bps = pnl\<rparr>
           in
           bindE (invoke (UpdateTrade (trade_id tradeToClose) patch)
                         (updateTrade env (trade_id tradeToClose) patch) s3) (\<lambda>_ s4.
           let postParams =
                 \<lparr>exit_marketName = market_name tradeToClose,
                  exit_position = trade_position tradeToClose,
                  exit_entryPrice = entry_price tradeToClose, exit_exitPrice = currentPrice,
                  exit_pnlBps = pnl, exit_amountEth = literal (1 / 10),
                  exit_txHash = close_txHash result,
                  exit_post_timestamp = close_timestamp result,
                  exit_exitReason = exitReason (config env) pnl\<rparr>
           in (Inr True, exitFanout env postParams (trade_id tradeToClose) s4)))))"

text \<open>
  The try block of one decision that is not HOLD (lines 194 to 361): whether \<open>executed\<close>
  is incremented, and the state left behind.
\<close>

definition tryDecision ::
  "env \<Rightarrow> (string \<Rightarrow> priceSnapshot option) \<Rightarrow> decision \<Rightarrow> state \<Rightarrow> bool \<times> state" where
  "tryDecision env marketPrices d s =
     (case
        (if action d = BUY then
           bindE (buyDecision env marketPrices d s) (\<lambda>_ s'. (Inr True, s'))
         else if action d = SELL then sellDecision env d s
         else (Inr False, s))
      of (Inl e, s') \<Rightarrow> (False, s')
       | (Inr counted, s') \<Rightarrow> (counted, s'))"

text \<open>The loop over the decisions, carrying the counters \<open>executed\<close> and \<open>skipped\<close>.\<close>

fun decisionLoop ::
  "env \<Rightarrow> (string \<Rightarrow> priceSnapshot option) \<Rightarrow> decision list \<Rightarrow> nat \<Rightarrow> nat \<Rightarrow> state
     \<Rightarrow> (nat \<times> nat) \<times> state" where
  "decisionLoop env marketPrices [] executed skipped s = ((executed, skipped), s)"
| "decisionLoop env marketPrices (d # rest) executed skipped s =
     (if action d = HOLD then decisionLoop env marketPrices rest executed (skipped + 1) s
      else
        (case tryDecision env marketPrices d s of
           (counted, s') \<Rightarrow>
             decisionLoop env marketPrices rest (if counted then executed + 1 else executed)
               skipped s'))"

definition executeTradingDecisions ::
  "env \<Rightarrow> decision list \<Rightarrow> (string \<Rightarrow> priceSnapshot option) \<Rightarrow> state \<Rightarrow> nat \<times> state" where
  "executeTradingDecisions env ds marketPrices s =
     (case decisionLoop env marketPrices ds 0 0 s of ((executed, skipped), s') \<Rightarrow> (executed, s'))"

section \<open>Daily summary\<close>

definition DAILY_SUMMARY_INTERVAL :: int where
  "DAILY_SUMMARY_INTERVAL = 24 * 60 * 60 * 1000"

text \<open>
  \<^verbatim>\<open>(sum, t) => sum + (t.pnl_bps || 0)\<close>, the reducer of line 388; NaN and zero are falsy,
  as null and undefined are.
\<close>

definition addPnl :: "jsnumber \<Rightarrow> trade \<Rightarrow> jsnumber" where
  "addPnl acc t =
     js_plus acc
       (case pnl_bps t of
          Value p \<Rightarrow> if p = NaN \<or> is_zero p then Finite 0 else p
        | _ \<Rightarrow> Finite 0)"

text \<open>The two try blocks that publish the summary (lines 397 to 425).\<close>

definition summaryFanout :: "env \<Rightarrow> summaryParams \<Rightarrow> state \<Rightarrow> state" where
  "summaryFanout env params s =
     (let s1 = tryCatch
                 (bindE (invoke (GenerateDailySummaryForPlatform params TWITTER)
                                (generateDailySummaryForPlatform env params TWITTER) s)
                    (\<lambda>tweetContent sa.
                       tweetAndRecord env tweetContent DAILY_SUMMARY None sa))
      in tryCatch
           (bindE (invoke (GenerateDailySummaryForPlatform params FARCASTER)
                          (generateDailySummaryForPlatform env params FARCASTER) s1)
              (\<lambda>castContent sa.
                 castAndRecord env castContent DAILY_SUMMARY None sa)))"

text \<open>
  \<^verbatim>\<open>postDailySummary\<close> (lines 370 to 440). \<open>startOfToday\<close> is the local midnight that
  \<^verbatim>\<open>setHours(0, 0, 0, 0)\<close> leaves in \<open>today\<close>.
\<close>

definition postDailySummary :: "env \<Rightarrow> state \<Rightarrow> state" where
  "postDailySummary env s =
     (let now = Date_now env (calls s) in
      if now - lastDailySummary s < DAILY_SUMMARY_INTERVAL then s
      else
        tryCatch
          (bindE (invoke GetBalance (getBalance env) s) (\<lambda>balance s1.
           bindE (invoke GetOpenTrades (getOpenTrades env) s1) (\<lambda>openTrades s2.
           bindE (invoke (GetAllTrades 100) (getAllTrades env 100) s2) (\<lambda>allTrades s3.
           let today = startOfToday env (calls s3);
               todays = filter (\<lambda>t. today \<le> entry_timestamp t) allTrades;
               params = \<lparr>totalValue = weiToEth env balance,
                         dailyPnlBps = foldl addPnl (Finite 0) todays,
                         tradesToday = length todays,
                         openPositions = length openTrades\<rparr>;
               s5 = summaryFanout env params s3;
               snapshot = \<lparr>snapshot_timestamp = Date_now env (calls s5),
                           total_value_eth = weiToEth env balance,
                           open_positions_count = length openTrades,
                           daily_pnl_bps = foldl addPnl (Finite 0) todays\<rparr>
           in
           bindE (invoke (CreatePortfolioSnapshot snapshot)
                         (createPortfolioSnapshot env snapshot) s5) (\<lambda>_ s6.
           (Inr (), s6\<lparr>lastDailySummary := now\<rparr>)))))))"

section \<open>One iteration\<close>

text \<open>The object that the callback of line 464 returns (lines 466 to 474).\<close>

definition positionViewOf :: "trade \<Rightarrow> price \<Rightarrow> positionView" where
  "positionViewOf t currentPrice =
     \<lparr>pv_marketId = market_id t, pv_marketName = market_name t,
      pv_position = trade_position t, pv_entryPrice = entry_price t,
      pv_currentPrice = currentPrice,
      pv_pnlBps = pnlBps currentPrice (entry_price t)\<rparr>"

text \<open>
  The position view of one open trade (lines 464 to 475): the price fetch is issued and
  the view is built when it resolves.
\<close>

definition positionWithPrice :: "env \<Rightarrow> trade \<Rightarrow> state \<Rightarrow> positionView outcome" where
  "positionWithPrice env t s =
     bindE (invoke (GetMarketPrice (market_id t) (trade_position t))
                   (getMarketPrice env (market_id t) (trade_position t)) s) (\<lambda>currentPrice s1.
       (Inr (positionViewOf t currentPrice), s1))"

text \<open>
  \<^verbatim>\<open>openTrades.map(async (trade) => ...)\<close>: every callback runs up to its await, so the
  fetch of every trade is issued, in the order of the list, whatever the others do. The
  result is the list of the promises: of each the instant at which it settles, which is
  that of its fetch, and what it settles to.
\<close>

fun mapAsync ::
  "env \<Rightarrow> trade list \<Rightarrow> state \<Rightarrow> (nat \<times> (error + positionView)) list \<times> state" where
  "mapAsync env [] s = ([], s)"
| "mapAsync env (t # ts) s =
     (case positionWithPrice env t s of
        (r, s1) \<Rightarrow>
          (case mapAsync env ts s1 of
             (rs, s2) \<Rightarrow>
               ((getMarketPrice_settles env (market_id t) (trade_position t) (calls s), r) # rs,
                s2)))"

text \<open>
  The rejection that comes first among promises: the one with the least settling instant,
  and of two that settle at the same instant the earlier in the list.
\<close>

fun firstRejection :: "(nat \<times> (error + 'a)) list \<Rightarrow> (nat \<times> error) option" where
  "firstRejection [] = None"
| "firstRejection ((a, Inl e) # ps) =
     (case firstRejection ps of
        None \<Rightarrow> Some (a, e)
      | Some (b, e') \<Rightarrow> if b < a then Some (b, e') else Some (a, e))"
| "firstRejection ((a, Inr x) # ps) = firstRejection ps"

text \<open>
  \<^verbatim>\<open>Promise.all\<close>: it rejects with the first rejection, and resolves to the values in the
  order of the list when no promise rejects.
\<close>

definition Promise_all :: "(nat \<times> (error + 'a)) list \<Rightarrow> error + 'a list" where
  "Promise_all ps =
     (case firstRejection ps of
        Some (a, e) \<Rightarrow> Inl e
      | None \<Rightarrow> Inr (concat (map (\<lambda>p. case snd p of Inr x \<Rightarrow> [x] | Inl e \<Rightarrow> []) ps)))"

definition openPositionsWithPrices :: "env \<Rightarrow> trade list \<Rightarrow> state \<Rightarrow> positionView list outcome" where
  "openPositionsWithPrices env openTrades s =
     (case mapAsync env openTrades s of (rs, s') \<Rightarrow> (Promise_all rs, s'))"

text \<open>The commentary posts (lines 500 to 527).\<close>

definition postCommentary :: "env \<Rightarrow> analysis \<Rightarrow> state \<Rightarrow> state" where
  "postCommentary env a s =
     (let s1 = tryCatch
                 (let params = \<lparr>commentary = marketCommentary a,
                                refl_riskAssessment = riskAssessment a,
                                refl_portfolioRecommendation = portfolioRecommendation a,
                                refl_timestamp = Date_now env (calls s)\<rparr>
                  in bindE (invoke (GenerateMarketReflectionPostForPlatform params TWITTER)
                              (generateMarketReflectionPostForPlatform env params TWITTER) s)
                       (\<lambda>reflection sa.
                          invoke (PostTweetWithRateLimit reflection)
                                 (postTweetWithRateLimit env reflection) sa))
      in tryCatch
           (let params = \<lparr>commentary = marketCommentary a,
                          refl_riskAssessment = riskAssessment a,
                          refl_portfolioRecommendation = portfolioRecommendation a,
                          refl_timestamp = Date_now env (calls s1)\<rparr>
            in bindE (invoke (GenerateMarketReflectionPostForPlatform params FARCASTER)
                        (generateMarketReflectionPostForPlatform env params FARCASTER) s1)
                 (\<lambda>castContent sa.
                    invoke (PostCastWithRateLimit castContent)
                           (postCastWithRateLimit env castContent) sa)))"

text \<open>The round summary (lines 540 to 559).\<close>

definition roundSummary :: "env \<Rightarrow> roundParams \<Rightarrow> state \<Rightarrow> state" where
  "roundSummary env params s =
     tryCatch
       (if \<not> truthy (farcaster_signerUuid (config env)) then (Inr None, s)
        else
          bindE (invoke (GenerateRoundSummaryForPlatform params FARCASTER)
                        (generateRoundSummaryForPlatform env params FARCASTER) s)
            (\<lambda>castContent sa.
               invoke (PostCastWithRateLimit castContent)
                      (postCastWithRateLimit env castContent) sa))"

text \<open>\<^verbatim>\<open>pickTipRecipient\<close> (lines 30 to 36); an index out of range reads \<^verbatim>\<open>undefined\<close>.\<close>

definition pickTipRecipient :: "env \<Rightarrow> state \<Rightarrow> string option" where
  "pickTipRecipient env s =
     (if disableTips (config env) \<or> length (tipRecipients (config env)) = 0 then None
      else
        (case js_times (Finite (Math_random env (calls s)))
                (Finite (of_nat (length (tipRecipients (config env))))) of
           Finite x \<Rightarrow>
             (let index = \<lfloor>x\<rfloor>
              in if 0 \<le> index \<and> index < int (length (tipRecipients (config env)))
                 then Some (tipRecipients (config env) ! nat index)
                 else None)
         | _ \<Rightarrow> None))"

text \<open>The tip block that ends the iteration (lines 561 to 572).\<close>

definition tipDisbursement :: "env \<Rightarrow> state \<Rightarrow> state" where
  "tipDisbursement env s =
     (let now = Date_now env (calls s) in
      if \<not> disableTips (config env) \<and> tipIntervalMs (config env) \<le> now - lastTipTime s then
        (case pickTipRecipient env s of
           None \<Rightarrow> s
         | Some recipient \<Rightarrow>
             if recipient = [] then s
             else
               tryCatch
                 (bindE (invoke (SendTip recipient (tipAmountEth (config env)))
                                (sendTip env recipient (tipAmountEth (config env))) s)
                    (\<lambda>_ s1. (Inr (), s1\<lparr>lastTipTime := now\<rparr>))))
      else s)"

text \<open>
  The try block of \<^verbatim>\<open>runOneIteration\<close> after the health check (lines 456 to 575). The
  price map is built by \<^verbatim>\<open>new Map\<close>, where a later entry replaces an earlier one with the
  same key.
\<close>

definition iterationBody :: "env \<Rightarrow> state \<Rightarrow> unit outcome" where
  "iterationBody env s =
     bindE (invoke FetchMarkets (fetchMarkets env) s) (\<lambda>markets s1.
     bindE (invoke GetBalance (getBalance env) s1) (\<lambda>balance s2.
     bindE (invoke GetOpenTrades (getOpenTrades env) s2) (\<lambda>openTrades s3.
     bindE (openPositionsWithPrices env openTrades s3) (\<lambda>views s4.
     bindE (invoke (FetchNewsHeadlines 5) (fetchNewsHeadlines env 5) s4) (\<lambda>newsContext s5.
     bindE (invoke (AnalyzeMarkets (weiToEth env balance) views markets newsContext)
                   (analyzeMarkets env (weiToEth env balance) views markets newsContext) s5)
       (\<lambda>a s6.
     let s7 = (if truthy (marketCommentary a) then postCommentary env a s6 else s6);
         priceMap = map_of (rev (map (\<lambda>m. (m_id m, \<lparr>yesPrice = m_yesPrice m,
                                                     noPrice = m_noPrice m\<rparr>)) markets))
     in
     (case executeTradingDecisions env (decisions a) priceMap s7 of
        (executed, s8) \<Rightarrow>
          bindE (invoke ProcessNotableTrades (processNotableTrades env) s8) (\<lambda>_ s9.
          let s10 = postDailySummary env (processMentions env s9);
              s11 = roundSummary env
                      \<lparr>portfolioEth = weiToEth env balance,
                       round_openPositions = length openTrades,
                       marketsScanned = length markets,
                       decisionsCount = length (decisions a),
                       tradesExecuted = executed,
                       hasCommentary =
                         (case marketCommentary a of
                            None \<Rightarrow> False
                          | Some c \<Rightarrow> trim env c \<noteq> [])\<rparr> s10
          in (Inr (), tipDisbursement env s11)))))))))"

text \<open>\<^verbatim>\<open>runOneIteration\<close> (lines 446 to 580).\<close>

definition runOneIteration :: "env \<Rightarrow> state \<Rightarrow> iterationResult \<times> state" where
  "runOneIteration env s =
     (case healthCheck env s of
        (healthy, s1) \<Rightarrow>
          if \<not> healthy then (\<lparr>ok = False, message = ''Health check failed''\<rparr>, s1)
          else
            (case iterationBody env s1 of
               (Inl e, s2) \<Rightarrow> (\<lparr>ok = False, message = e\<rparr>, s2)
             | (Inr _, s2) \<Rightarrow> (\<lparr>ok = True, message = ''Iteration complete''\<rparr>, s2)))"

section \<open>The loop and the shutdown handlers\<close>

text \<open>
  The process as the event loop sees it: the flag \<^verbatim>\<open>isRunning\<close>, the exit status once
  \<^verbatim>\<open>process.exit\<close> has been called, and the point at which \<^verbatim>\<open>autonomousLoop\<close> is
  suspended: testing the flag, inside \<^verbatim>\<open>runOneIteration\<close> with a number of awaits still
  to come, in \<^verbatim>\<open>sleep\<close>, or past the loop.
\<close>

datatype signal = SIGINT | SIGTERM

datatype loopPoint = LoopTest | InIteration nat | Sleeping | LoopLeft

record process =
  isRunning :: bool
  exitStatus :: "int option"
  suspendedAt :: loopPoint
  iterationsCompleted :: nat

text \<open>
  An event of the event loop: a signal is delivered, or the awaited promise settles and
  the loop function runs on to its next await. \<open>Settle k\<close> carries the number of awaits
  of the iteration that would start.
\<close>

datatype event = Deliver signal | Settle nat

text \<open>The two handlers (lines 677 to 687) have the same body.\<close>

definition onSignal :: "signal \<Rightarrow> process \<Rightarrow> process" where
  "onSignal sig p = p\<lparr>isRunning := False, exitStatus := Some 0\<rparr>"

text \<open>\<^verbatim>\<open>while (isRunning) { await runOneIteration(); await sleep(...) }\<close> (lines 607 to 610).\<close>

fun resume :: "nat \<Rightarrow> process \<Rightarrow> process" where
  "resume k p =
     (case suspendedAt p of
        LoopTest \<Rightarrow>
          if isRunning p then p\<lparr>suspendedAt := InIteration k\<rparr> else p\<lparr>suspendedAt := LoopLeft\<rparr>
      | InIteration (Suc n) \<Rightarrow> p\<lparr>suspendedAt := InIteration n\<rparr>
      | InIteration 0 \<Rightarrow>
          p\<lparr>suspendedAt := Sleeping, iterationsCompleted := iterationsCompleted p + 1\<rparr>
      | Sleeping \<Rightarrow>
          if isRunning p then p\<lparr>suspendedAt := InIteration k\<rparr> else p\<lparr>suspendedAt := LoopLeft\<rparr>
      | LoopLeft \<Rightarrow> p)"

text \<open>Once the process has exited, nothing runs any more.\<close>

definition step :: "process \<Rightarrow> event \<Rightarrow> process" where
  "step p ev =
     (if exitStatus p \<noteq> None then p
      else (case ev of Deliver sig \<Rightarrow> onSignal sig p | Settle k \<Rightarrow> resume k p))"

section \<open>Vocabulary of the properties\<close>

text \<open>The calls that a run adds to the log: those of \<open>s'\<close> beyond the ones of \<open>s\<close>.\<close>

definition newCalls :: "state \<Rightarrow> state \<Rightarrow> call list" where
  "newCalls s s' = drop (length (calls s)) (calls s')"

text \<open>The calls to the AI collaborator and to the trading collaborator.\<close>

fun isAiCall :: "call \<Rightarrow> bool" where
  "isAiCall (AnalyzeMarkets v ps ms ns) = True"
| "isAiCall (GenerateReply t) = True"
| "isAiCall c = False"

fun isTradingCall :: "call \<Rightarrow> bool" where
  "isTradingCall (ExecuteTrade i n p a e) = True"
| "isTradingCall (ClosePosition n p e c u i) = True"
| "isTradingCall (GetMarketPrice i p) = True"
| "isTradingCall c = False"

text \<open>
  The price fetch that the reconciliation issues for an open trade.
\<close>

definition priceFetch :: "trade \<Rightarrow> call" where
  "priceFetch t = GetMarketPrice (market_id t) (trade_position t)"

text \<open>
  The \<open>k\<close>-th fetch of a reconciliation that starts at the history \<open>h\<close>: what the oracle
  answers at the history at which that fetch is issued, and the instant at which it
  settles.
\<close>

definition fetchOutcome :: "env \<Rightarrow> call list \<Rightarrow> trade list \<Rightarrow> nat \<Rightarrow> error + price" where
  "fetchOutcome env h ts k =
     getMarketPrice env (market_id (ts ! k)) (trade_position (ts ! k))
       (h @ map priceFetch (take k ts))"

definition fetchSettles :: "env \<Rightarrow> call list \<Rightarrow> trade list \<Rightarrow> nat \<Rightarrow> nat" where
  "fetchSettles env h ts k =
     getMarketPrice_settles env (market_id (ts ! k)) (trade_position (ts ! k))
       (h @ map priceFetch (take k ts))"

text \<open>The calls that the fan-out after a closed trade can make for given parameters.\<close>

definition exitFanoutCall :: "exitPostParams \<Rightarrow> call \<Rightarrow> bool" where
  "exitFanoutCall params c \<longleftrightarrow>
     (\<exists>pf. c = GenerateTradeExitPostForPlatform params pf) \<or> (\<exists>x. c = PostTweetWithRateLimit x)
     \<or> (\<exists>x. c = PostCastWithRateLimit x) \<or> (\<exists>p. c = RecordSocialPost p)"

text \<open>
  The mention ids that the table holds for a platform, and the calls of the responder.
\<close>

definition recordedIn :: "platform \<Rightarrow> mention list \<Rightarrow> string set" where
  "recordedIn pf rows = mention_id ` {r \<in> set rows. row_platform r = pf}"

fun isGenerateReply :: "call \<Rightarrow> bool" where
  "isGenerateReply (GenerateReply t) = True"
| "isGenerateReply c = False"

fun isReplyToTweet :: "string \<Rightarrow> call \<Rightarrow> bool" where
  "isReplyToTweet i (ReplyToTweet j r) = (i = j)"
| "isReplyToTweet i c = False"

fun isReplyToCast :: "string \<Rightarrow> call \<Rightarrow> bool" where
  "isReplyToCast i (ReplyToCast j r) = (i = j)"
| "isReplyToCast i c = False"



section \<open>Sample inputs\<close>

definition sampleConfig :: config where
  "sampleConfig =
     \<lparr>disableTips = False, tipRecipients = [''0xA11CE'', ''0xB0B''], disableMentions = False,
      ethUsdPrice = 3000, stopLossBps = 1500, takeProfitBps = 3000,
      farcaster_signerUuid = Some ''signer-1'', tipIntervalMs = 86400000,
      tipAmountEth = 1 / 2048, loopIntervalMs = 900000\<rparr>"

definition sampleTrade :: trade where
  "sampleTrade =
     \<lparr>trade_id = 7, market_id = ''btc-100k'', market_name = ''BTC above 100k'',
      trade_position = NO, amount_eth = Value (1 / 4), amount_usd = Undefined,
      entry_price = Finite 100, entry_timestamp = 1000, pnl_bps = Undefined\<rparr>"

definition secondTrade :: trade where
  "secondTrade =
     \<lparr>trade_id = 8, market_id = ''eth-5k'', market_name = ''ETH above 5k'',
      trade_position = YES, amount_eth = Value (1 / 8), amount_usd = Value 375,
      entry_price = Finite 4000, entry_timestamp = 2000, pnl_bps = Undefined\<rparr>"

definition sampleSell :: decision where
  "sampleSell =
     \<lparr>action = SELL, marketId = ''btc-100k'', marketName = ''BTC above 100k'', position = NO,
      amountEth = 1 / 16, reasoning = ''signal faded'', confidence = 3 / 4\<rparr>"

definition sampleBuy :: decision where
  "sampleBuy =
     \<lparr>action = BUY, marketId = ''btc-100k'', marketName = ''BTC above 100k'', position = NO,
      amountEth = 1 / 16, reasoning = ''momentum'', confidence = 3 / 4\<rparr>"

definition sampleMention :: twitterMention where
  "sampleMention = \<lparr>tw_id = ''1801'', tw_author = ''alice'', tw_text = ''gm crab'', tw_createdAt = 500\<rparr>"

text \<open>An environment in which every collaborator answers.\<close>

definition sampleEnv :: env where
  "sampleEnv =
     \<lparr>config = sampleConfig,
      weiToEth = (\<lambda>wei. literal (of_int wei / 1000000000000000000)),
      lowBalanceAlert = (\<lambda>wei. ''Low balance alert''),
      trim = (\<lambda>t. t),
      Date_now = (\<lambda>h. 90000000),
      startOfToday = (\<lambda>h. 86400000),
      Math_random = (\<lambda>h. 1 / 2),
      hasSufficientBalance = (\<lambda>h. Inr True),
      getBalance = (\<lambda>h. Inr 62500000000000000),
      postTweetWithRateLimit = (\<lambda>t h. Inr (Some ''tweet-1'')),
      postCastWithRateLimit = (\<lambda>t h. Inr (Some ''0xcast'')),
      fetchTwitterMentions = (\<lambda>h. Inr []),
      fetchFarcasterMentions = (\<lambda>h. Inr []),
      mentionStoreFailure = (\<lambda>h. None),
      generateReply = (\<lambda>t h. Inr ''gm''),
      replyToTweet = (\<lambda>i r h. Inr ''reply-1''),
      replyToCast = (\<lambda>i r h. Inr ''0xreply''),
      recordSocialPost = (\<lambda>p h. Inr ()),
      executeTrade = (\<lambda>i n p a e h.
        Inr \<lparr>resolvedMarketId = None, actualPrice = e, txHash = ''0xbuy'', timestamp = 2000\<rparr>),
      createTrade = (\<lambda>r h. Inr sampleTrade),
      getOpenTrades = (\<lambda>h. Inr [sampleTrade]),
      getAllTrades = (\<lambda>n h. Inr [sampleTrade]),
      getMarketPrice = (\<lambda>i p h. Inr (Finite 120)),
      getMarketPrice_settles = (\<lambda>i p h. length h),
      closePosition = (\<lambda>n p e c u i h. Inr \<lparr>close_txHash = ''0xsell'', close_timestamp = 3000\<rparr>),
      updateTrade = (\<lambda>i p h. Inr ()),
      generateTradeEntryPostForPlatform = (\<lambda>p pf h. Inr ''entry''),
      generateTradeExitPostForPlatform = (\<lambda>p pf h. Inr ''exit''),
      generateDailySummaryForPlatform = (\<lambda>p pf h. Inr ''digest''),
      generateMarketReflectionPostForPlatform = (\<lambda>p pf h. Inr ''reflection''),
      generateRoundSummaryForPlatform = (\<lambda>p pf h. Inr ''round''),
      createPortfolioSnapshot = (\<lambda>p h. Inr ()),
      fetchMarkets = (\<lambda>h. Inr []),
      fetchNewsHeadlines = (\<lambda>n h. Inr []),
      analyzeMarkets = (\<lambda>v ps ms ns h.
        Inr \<lparr>decisions = [], marketCommentary = None, riskAssessment = None,
             portfolioRecommendation = None\<rparr>),
      processNotableTrades = (\<lambda>h. Inr ()),
      sendTip = (\<lambda>r a h. Inr ())\<rparr>"

definition freshState :: state where
  "freshState = \<lparr>lastDailySummary = 0, lastTipTime = 0, mentions = [], calls = []\<rparr>"

text \<open>
  Variations of it: a collaborator that throws, or a client that resolves to null.
\<close>

definition balanceDownEnv :: env where
  "balanceDownEnv = sampleEnv\<lparr>hasSufficientBalance := (\<lambda>h. Inl ''rpc unreachable'')\<rparr>"

definition priceDownEnv :: env where
  "priceDownEnv =
     sampleEnv\<lparr>getOpenTrades := (\<lambda>h. Inr [sampleTrade, secondTrade]),
               getMarketPrice := (\<lambda>i p h. if i = ''eth-5k'' then Inl ''price feed down'' else Inr (Finite 120))\<rparr>"

text \<open>Both price fetches throw, and the one issued second settles first.\<close>

definition pricesDownEnv :: env where
  "pricesDownEnv =
     sampleEnv\<lparr>getOpenTrades := (\<lambda>h. Inr [sampleTrade, secondTrade]),
               getMarketPrice :=
                 (\<lambda>i p h. if i = ''eth-5k'' then Inl ''price feed down'' else Inl ''slow feed error''),
               getMarketPrice_settles := (\<lambda>i p h. if i = ''eth-5k'' then 1 else 2)\<rparr>"

text \<open>
  The open trade was entered at 800 and the price fetch delivers 939; and an environment
  in which the price fetch delivers NaN.
\<close>

definition tieEnv :: env where
  "tieEnv =
     sampleEnv\<lparr>getOpenTrades := (\<lambda>h. Inr [sampleTrade\<lparr>entry_price := Finite 800\<rparr>]),
               getMarketPrice := (\<lambda>i p h. Inr (Finite 939))\<rparr>"

definition nanPriceEnv :: env where
  "nanPriceEnv = sampleEnv\<lparr>getMarketPrice := (\<lambda>i p h. Inr NaN)\<rparr>"

definition nullPostsEnv :: env where
  "nullPostsEnv =
     sampleEnv\<lparr>postTweetWithRateLimit := (\<lambda>t h. Inr None),
               postCastWithRateLimit := (\<lambda>t h. Inr None)\<rparr>"

definition repeatedMentionEnv :: env where
  "repeatedMentionEnv = sampleEnv\<lparr>fetchTwitterMentions := (\<lambda>h. Inr [sampleMention, sampleMention])\<rparr>"



definition tipDownEnv :: env where
  "tipDownEnv = sampleEnv\<lparr>sendTip := (\<lambda>r a h. Inl ''insufficient funds'')\<rparr>"

text \<open>
  A process suspended inside an iteration, three awaits before its end.
\<close>

definition midIteration :: process where
  "midIteration =
     \<lparr>isRunning = True, exitStatus = None, suspendedAt = InIteration 3, iterationsCompleted = 0\<rparr>"

section \<open>Sequencing and the call log\<close>

lemma bindE_Inl [simp]: "bindE (Inl e, s) f = (Inl e, s)"
  by (simp add: bindE_def)

lemma bindE_Inr [simp]: "bindE (Inr x, s) f = f x s"
  by (simp add: bindE_def)

lemma bindE_rejected: "fst m = Inl e \<Longrightarrow> bindE m f = (Inl e, snd m)"
  by (cases m) (simp add: bindE_def)

lemma newCalls_append [simp]: "newCalls s (s'\<lparr>calls := calls s @ xs\<rparr>) = xs"
  by (simp add: newCalls_def)

lemma newCalls_self [simp]: "newCalls s s = []"
  by (simp add: newCalls_def)

lemma newCalls_extension: "calls s' = calls s @ new \<Longrightarrow> newCalls s s' = new"
  by (simp add: newCalls_def)

section \<open>Double arithmetic\<close>

lemma signed_infinity_not_NaN [simp]: "signed_infinity b \<noteq> NaN"
  by (simp add: signed_infinity_def)

lemma fl_not_NaN [simp]: "fl x \<noteq> NaN"
  by (simp add: fl_def Let_def)

lemma Math_round_NaN [simp]: "Math_round a = NaN \<longleftrightarrow> a = NaN"
  by (cases a) simp_all

lemma Math_round_integer: "Math_round a = Finite v \<Longrightarrow> v \<in> \<int>"
  by (cases a) auto

text \<open>
  With finite prices and an entry price other than zero the P&L is a number; with a price
  that is NaN it is NaN. It is an integer if finite.
\<close>

lemma pnlBps_not_NaN: "e \<noteq> 0 \<Longrightarrow> pnlBps (Finite c) (Finite e) \<noteq> NaN"
  unfolding pnlBps_def js_minus_def js_plus_def js_times_def js_divide_def
  by (auto split: jsnumber.splits)

lemma pnlBps_NaN [simp]: "pnlBps NaN e = NaN" "pnlBps c NaN = NaN"
  unfolding pnlBps_def js_minus_def js_plus_def js_times_def js_divide_def
  by (cases e; simp) (cases c; simp)

lemma pnlBps_integer: "pnlBps c e = Finite v \<Longrightarrow> v \<in> \<int>"
  unfolding pnlBps_def by (rule Math_round_integer)

subsection \<open>The rounding error\<close>

text \<open>
  The exponent is at most that of the number, so that a number below \<open>2^1023\<close> is rounded to
  a finite double, at a distance of at most half a step of the significand.
\<close>

lemma roundEven_error: "\<bar>of_int (roundEven z) - z\<bar> \<le> 1 / 2"
proof -
  define f where "f = \<lfloor>z\<rfloor>"
  define r where "r = z - of_int f"
  have r: "0 \<le> r" "r < 1" unfolding r_def f_def by linarith+
  have z: "z = of_int f + r" by (simp add: r_def)
  have "roundEven z = (if r < 1 / 2 then f else if 1 / 2 < r then f + 1
                       else if even f then f else f + 1)"
    by (simp add: roundEven_def Let_def f_def r_def)
  then show ?thesis
    using r unfolding z by (auto simp: abs_if)
qed

lemma exponent_le:
  assumes "x \<noteq> 0"
  shows "2 powi (exponent x) \<le> \<bar>x\<bar>"
proof -
  obtain n d where q: "quotient_of \<bar>x\<bar> = (n, d)" by (cases "quotient_of \<bar>x\<bar>")
  then have d: "0 < d" and x: "\<bar>x\<bar> = of_int n / of_int d"
    using quotient_of_denom_pos quotient_of_div by blast+
  have n: "0 < n"
  proof -
    have "0 < \<bar>x\<bar>" using assms by simp
    with x d show ?thesis by (simp add: zero_less_divide_iff)
  qed
  define k where "k = bitlen n - bitlen d"
  have "2 powi (k - 1) \<le> \<bar>x\<bar>"
  proof -
    have bn: "(2::int) ^ nat (bitlen n - 1) \<le> n" using bitlen_bounds [OF n] by simp
    have bd: "d < (2::int) ^ nat (bitlen d)" using bitlen_bounds [OF d] by simp
    have pn: "0 < bitlen n" and pd: "0 < bitlen d"
      using n d bitlen_eq_zero_iff [of n] bitlen_eq_zero_iff [of d]
        bitlen_nonneg [of n] bitlen_nonneg [of d] by linarith+
    have "(2::rat) ^ nat (bitlen n - 1) \<le> of_int n"
      using bn by (metis of_int_le_iff of_int_numeral of_int_power)
    moreover have "(of_int d :: rat) \<le> 2 ^ nat (bitlen d)"
      using bd by (metis less_imp_le of_int_le_iff of_int_numeral of_int_power)
    ultimately have "(2::rat) ^ nat (bitlen n - 1) / 2 ^ nat (bitlen d) \<le> of_int n / of_int d"
      using d n by (intro frac_le) simp_all
    moreover have "(2::rat) ^ nat (bitlen n - 1) / 2 ^ nat (bitlen d) = 2 powi (k - 1)"
    proof -
      have "k - 1 = int (nat (bitlen n - 1)) - int (nat (bitlen d))"
        using pn pd by (simp add: k_def)
      then have "(2::rat) powi (k - 1) = 2 powi (int (nat (bitlen n - 1)) - int (nat (bitlen d)))"
        by (rule arg_cong)
      also have "\<dots> = 2 powi int (nat (bitlen n - 1)) / 2 powi int (nat (bitlen d))"
        by (rule power_int_diff) simp
      finally have "(2::rat) powi (k - 1) = 2 ^ nat (bitlen n - 1) / 2 ^ nat (bitlen d)"
        unfolding power_int_of_nat .
      then show ?thesis by (rule sym)
    qed
    ultimately show ?thesis using x by simp
  qed
  then show ?thesis
    by (simp add: exponent_def q Let_def k_def)
qed

lemma exponent_below:
  assumes "x \<noteq> 0" and "\<bar>x\<bar> < 2 powi b"
  shows "exponent x < b"
proof (rule ccontr)
  assume "\<not> exponent x < b"
  then have "(2::rat) powi b \<le> 2 powi exponent x"
    by (intro power_int_increasing) simp_all
  with exponent_le [OF assms(1)] assms(2) show False by simp
qed

lemma fl_error:
  assumes "\<bar>x\<bar> < 2 ^ 1023"
  obtains y where "fl x = Finite y" and "\<bar>y - x\<bar> \<le> \<bar>x\<bar> / 2 ^ 53 + 1 / 2 ^ 1075"
proof (cases "x = 0")
  case True
  then have "fl x = Finite 0" "\<bar>0 - x\<bar> \<le> \<bar>x\<bar> / 2 ^ 53 + 1 / 2 ^ 1075"
    by (simp_all add: fl_def)
  then show ?thesis by (rule that)
next
  case False
  define e where "e = exponent x"
  define q :: rat where "q = 2 powi (max (e - 52) (- 1074))"
  define m where "m = roundEven (\<bar>x\<bar> / q)"
  have "\<bar>x\<bar> < 2 powi 1023" using assms by simp
  then have e: "e < 1023" unfolding e_def by (rule exponent_below [OF False])
  have lo: "2 powi e \<le> \<bar>x\<bar>" unfolding e_def by (rule exponent_le [OF False])
  have q0: "0 < q" by (simp add: q_def)
  have fl: "fl x = Finite (sgn x * of_int m * q)"
    using False e by (simp add: fl_def Let_def e_def [symmetric] q_def [symmetric] m_def [symmetric])
  have "\<bar>of_int m - \<bar>x\<bar> / q\<bar> \<le> 1 / 2"
    unfolding m_def by (rule roundEven_error)
  then have "\<bar>of_int m - \<bar>x\<bar> / q\<bar> * q \<le> 1 / 2 * q"
    using q0 by (intro mult_right_mono) simp_all
  moreover have "(of_int m - \<bar>x\<bar> / q) * q = of_int m * q - \<bar>x\<bar>"
    using q0 by (simp add: left_diff_distrib)
  then have "\<bar>of_int m - \<bar>x\<bar> / q\<bar> * q = \<bar>of_int m * q - \<bar>x\<bar>\<bar>"
    using q0 by (metis abs_mult abs_of_pos)
  ultimately have mq: "\<bar>of_int m * q - \<bar>x\<bar>\<bar> \<le> q / 2"
    by simp
  have "sgn x * (of_int m * q - \<bar>x\<bar>) = sgn x * of_int m * q - sgn x * \<bar>x\<bar>"
    by (simp add: right_diff_distrib mult.assoc)
  then have "sgn x * of_int m * q - x = sgn x * (of_int m * q - \<bar>x\<bar>)"
    by (simp only: mult_sgn_abs)
  then have "\<bar>sgn x * of_int m * q - x\<bar> = \<bar>of_int m * q - \<bar>x\<bar>\<bar>"
    using False by (simp add: abs_mult abs_sgn_eq)
  with mq have err: "\<bar>sgn x * of_int m * q - x\<bar> \<le> q / 2" by simp
  have "q \<le> 2 powi (e - 52) + 2 powi (- 1074)"
    by (simp add: q_def max_def)
  moreover have "(2::rat) powi (e - 52) = 2 powi e / 2 ^ 52"
    by (simp add: power_int_diff)
  moreover have "(2::rat) powi (- 1074) = 1 / 2 ^ 1074"
    by (simp add: power_int_minus divide_simps)
  ultimately have "q / 2 \<le> \<bar>x\<bar> / 2 ^ 53 + 1 / 2 ^ 1075"
    using lo by simp
  with err have "\<bar>sgn x * of_int m * q - x\<bar> \<le> \<bar>x\<bar> / 2 ^ 53 + 1 / 2 ^ 1075"
    by (rule order_trans)
  with fl show ?thesis by (rule that)
qed

lemma fl_error_moderate:
  assumes "\<bar>x\<bar> \<le> 2 ^ 200"
  obtains y where "fl x = Finite y" and "\<bar>y - x\<bar> \<le> \<bar>x\<bar> / 2 ^ 53 + 1 / 2 ^ 200"
proof -
  have "(2::rat) ^ 200 < 2 ^ 1023" by (intro power_strict_increasing) simp_all
  with assms have "\<bar>x\<bar> < 2 ^ 1023" by (rule le_less_trans)
  then obtain y where y: "fl x = Finite y" "\<bar>y - x\<bar> \<le> \<bar>x\<bar> / 2 ^ 53 + 1 / 2 ^ 1075"
    by (rule fl_error)
  have "(2::rat) ^ 200 \<le> 2 ^ 1075" by (intro power_increasing) simp_all
  then have "1 / (2::rat) ^ 1075 \<le> 1 / 2 ^ 200" by (intro divide_left_mono) simp_all
  with y(2) have "\<bar>y - x\<bar> \<le> \<bar>x\<bar> / 2 ^ 53 + 1 / 2 ^ 200" by linarith
  with y(1) show ?thesis by (rule that)
qed

text \<open>
  The three roundings of the P&L expression, for an entry price between \<open>2^(-100)\<close> and
  \<open>2^100\<close> in magnitude and a price that differs from it by at most \<open>2^20\<close> times the
  entry price: the result is an integer within \<open>1/2 + 2^(-16)\<close> of the exact quantity.
\<close>

lemma pnlBps_error:
  assumes lo: "1 / 2 ^ 100 \<le> \<bar>e\<bar>" and hi: "\<bar>e\<bar> \<le> 2 ^ 100"
      and ratio: "\<bar>c - e\<bar> \<le> 2 ^ 20 * \<bar>e\<bar>"
  obtains v where "pnlBps (Finite c) (Finite e) = Finite (of_int v)"
    and "\<bar>of_int v - (c - e) / e * 10000\<bar> \<le> 1 / 2 + 1 / 2 ^ 16"
proof -
  have "(0::rat) < 1 / 2 ^ 100" by simp
  with lo have E: "0 < \<bar>e\<bar>" by linarith
  then have e0: "e \<noteq> 0" by simp
  define r where "r = (c - e) / e"
  have r: "\<bar>r\<bar> \<le> 2 ^ 20"
    unfolding r_def abs_divide using ratio E by (simp add: pos_divide_le_eq)
  have inv: "1 / \<bar>e\<bar> \<le> 2 ^ 100"
  proof -
    have "1 \<le> 2 ^ 100 * \<bar>e\<bar>" using lo by (simp add: pos_divide_le_eq mult.commute)
    then show ?thesis using E by (simp add: pos_divide_le_eq)
  qed
  text \<open>The difference.\<close>
  have "2 ^ 20 * \<bar>e\<bar> \<le> 2 ^ 20 * 2 ^ 100" using hi by (intro mult_left_mono) simp_all
  also have "\<dots> \<le> (2::rat) ^ 200" by simp
  finally have "\<bar>c - e\<bar> \<le> 2 ^ 200" using ratio by linarith
  then obtain y1 where y1: "fl (c - e) = Finite y1"
      "\<bar>y1 - (c - e)\<bar> \<le> \<bar>c - e\<bar> / 2 ^ 53 + 1 / 2 ^ 200"
    by (rule fl_error_moderate)
  text \<open>The quotient.\<close>
  define b where "b = y1 / e"
  have "b - r = (y1 - (c - e)) / e" by (simp add: b_def r_def diff_divide_distrib)
  then have "\<bar>b - r\<bar> = \<bar>y1 - (c - e)\<bar> / \<bar>e\<bar>" by (simp add: abs_divide)
  also have "\<dots> \<le> (\<bar>c - e\<bar> / 2 ^ 53 + 1 / 2 ^ 200) / \<bar>e\<bar>"
    using y1(2) E by (intro divide_right_mono) simp_all
  also have "\<dots> = \<bar>r\<bar> / 2 ^ 53 + 1 / 2 ^ 200 * (1 / \<bar>e\<bar>)"
    by (simp add: r_def abs_divide add_divide_distrib)
  also have "\<dots> \<le> 2 ^ 20 / 2 ^ 53 + 1 / 2 ^ 200 * 2 ^ 100"
    using r inv by (intro add_mono divide_right_mono mult_left_mono) simp_all
  finally have d1: "\<bar>b - r\<bar> \<le> 2 ^ 20 / 2 ^ 53 + 1 / 2 ^ 200 * 2 ^ 100" .
  have bb: "\<bar>b\<bar> \<le> 2 ^ 21"
  proof -
    have "\<bar>b\<bar> \<le> \<bar>r\<bar> + \<bar>b - r\<bar>" by linarith
    moreover have "(2::rat) ^ 20 / 2 ^ 53 + 1 / 2 ^ 200 * 2 ^ 100 \<le> 2 ^ 20" by simp
    moreover have "(2::rat) ^ 20 + 2 ^ 20 = 2 ^ 21" by simp
    ultimately show ?thesis using d1 r by linarith
  qed
  have "(2::rat) ^ 21 \<le> 2 ^ 200" by (intro power_increasing) simp_all
  with bb have "\<bar>b\<bar> \<le> 2 ^ 200" by (rule order_trans)
  then obtain y2 where y2: "fl b = Finite y2" "\<bar>y2 - b\<bar> \<le> \<bar>b\<bar> / 2 ^ 53 + 1 / 2 ^ 200"
    by (rule fl_error_moderate)
  have "\<bar>b\<bar> / 2 ^ 53 \<le> 2 ^ 21 / 2 ^ 53" using bb by (intro divide_right_mono) simp_all
  with y2(2) have d2: "\<bar>y2 - b\<bar> \<le> 2 ^ 21 / 2 ^ 53 + 1 / 2 ^ 200" by linarith
  have yy: "\<bar>y2\<bar> \<le> 2 ^ 22"
  proof -
    have "\<bar>y2\<bar> \<le> \<bar>b\<bar> + \<bar>y2 - b\<bar>" by linarith
    moreover have "(2::rat) ^ 21 / 2 ^ 53 + 1 / 2 ^ 200 \<le> 2 ^ 21" by simp
    moreover have "(2::rat) ^ 21 + 2 ^ 21 = 2 ^ 22" by simp
    ultimately show ?thesis using d2 bb by linarith
  qed
  text \<open>The product.\<close>
  have p: "\<bar>y2 * 10000\<bar> \<le> 2 ^ 22 * 10000"
    using yy by (simp add: abs_mult)
  moreover have "(2::rat) ^ 22 * 10000 \<le> 2 ^ 200" by simp
  ultimately have "\<bar>y2 * 10000\<bar> \<le> 2 ^ 200" by (rule order_trans)
  then obtain y3 where y3: "fl (y2 * 10000) = Finite y3"
      "\<bar>y3 - y2 * 10000\<bar> \<le> \<bar>y2 * 10000\<bar> / 2 ^ 53 + 1 / 2 ^ 200"
    by (rule fl_error_moderate)
  have "\<bar>y2 * 10000\<bar> / 2 ^ 53 \<le> 2 ^ 22 * 10000 / 2 ^ 53"
    using p by (intro divide_right_mono) simp_all
  with y3(2) have d3: "\<bar>y3 - y2 * 10000\<bar> \<le> 2 ^ 22 * 10000 / 2 ^ 53 + 1 / 2 ^ 200"
    by linarith
  define B1 :: rat where "B1 = 2 ^ 20 / 2 ^ 53 + 1 / 2 ^ 200 * 2 ^ 100"
  define B2 :: rat where "B2 = 2 ^ 21 / 2 ^ 53 + 1 / 2 ^ 200"
  define B3 :: rat where "B3 = 2 ^ 22 * 10000 / 2 ^ 53 + 1 / 2 ^ 200"
  define D :: rat where "D = 1 / 2 ^ 16"
  have total: "\<bar>y3 - r * 10000\<bar> \<le> 1 / 2 ^ 16"
  proof -
    have "\<bar>y3 - r * 10000\<bar> \<le> \<bar>y3 - y2 * 10000\<bar> + \<bar>(y2 - r) * 10000\<bar>"
      by (simp only: left_diff_distrib)
    moreover have "\<bar>(y2 - r) * 10000\<bar> = 10000 * \<bar>y2 - r\<bar>"
      by (subst abs_mult) simp
    moreover have "\<bar>y2 - r\<bar> \<le> \<bar>y2 - b\<bar> + \<bar>b - r\<bar>"
      by linarith
    ultimately have "\<bar>y3 - r * 10000\<bar>
            \<le> \<bar>y3 - y2 * 10000\<bar> + 10000 * \<bar>y2 - b\<bar> + 10000 * \<bar>b - r\<bar>"
      by linarith
    moreover have "(2::rat) ^ 22 * 10000 / 2 ^ 53 + 1 / 2 ^ 200
        + 10000 * (2 ^ 21 / 2 ^ 53 + 1 / 2 ^ 200)
        + 10000 * (2 ^ 20 / 2 ^ 53 + 1 / 2 ^ 200 * 2 ^ 100) \<le> 1 / 2 ^ 16"
      by simp
    ultimately show ?thesis using d1 d2 d3
      unfolding B1_def [symmetric] B2_def [symmetric] B3_def [symmetric] D_def [symmetric]
      by linarith
  qed
  text \<open>The rounding to an integer.\<close>
  define v where "v = \<lfloor>y3 + 1 / 2\<rfloor>"
  have "of_int v \<le> y3 + 1 / 2" "y3 + 1 / 2 < of_int v + 1" unfolding v_def by linarith+
  with total have "\<bar>of_int v - r * 10000\<bar> \<le> 1 / 2 + 1 / 2 ^ 16"
    unfolding D_def [symmetric] by linarith
  moreover have "pnlBps (Finite c) (Finite e) = Finite (of_int v)"
    using e0 y1(1) y2(1) y3(1)
    by (simp add: pnlBps_def js_minus_def js_plus_def js_divide_def js_times_def b_def v_def)
  ultimately show ?thesis unfolding r_def by (intro that)
qed

text \<open>An integer that near to a number which is not near a tie is the number rounded.\<close>

lemma round_of_near:
  fixes X :: rat
  assumes "\<bar>of_int v - X\<bar> \<le> 1 / 2 + D" and "D < \<bar>frac X - 1 / 2\<bar>" and "0 \<le> D"
  shows "v = round X"
proof -
  define n where "n = \<lfloor>X\<rfloor>"
  define f where "f = frac X"
  have f: "0 \<le> f" "f < 1" by (simp_all add: f_def frac_lt_1)
  have X: "X = of_int n + f" by (simp add: n_def f_def frac_def)
  from assms(2) consider "f < 1 / 2 - D" | "1 / 2 + D < f"
    unfolding f_def [symmetric] by linarith
  then show ?thesis
  proof cases
    case 1
    have "round X = n"
      unfolding round_def X using 1 f assms(3) by (intro floor_unique) simp_all
    moreover have "of_int n - 1 < (of_int v :: rat)" "(of_int v :: rat) < of_int n + 1"
      using assms(1,3) 1 f unfolding X by linarith+
    then have "v = n" by linarith
    ultimately show ?thesis by simp
  next
    case 2
    have "round X = n + 1"
      unfolding round_def X using 2 f assms(3) by (intro floor_unique) simp_all
    moreover have "of_int n < (of_int v :: rat)" "(of_int v :: rat) < of_int n + 2"
      using assms(1,3) 2 f unfolding X by linarith+
    then have "v = n + 1" by linarith
    ultimately show ?thesis by simp
  qed
qed

subsection \<open>Sample values\<close>

text \<open>The values that the sample runs compute.\<close>

lemma pnlBps_120_100: "pnlBps (Finite 120) (Finite 100) = Finite 2000"
  by code_simp

lemma pnlBps_70_100: "pnlBps (Finite 70) (Finite 100) = Finite (- 3000)"
  by code_simp

text \<open>
  Entry 800 and price 939: the exact quantity is 1737.5. The quotient 0.17375 is not a
  double, the nearest double lies below it, and the product is rounded to the double next
  below 1737.5.
\<close>

lemma pnlBps_939_800: "pnlBps (Finite 939) (Finite 800) = Finite 1737"
  by code_simp

lemma round_939_800: "round ((939 - 800) / 800 * 10000 :: rat) = 1738"
  by (simp add: round_def)

text \<open>
  Entry 0.32 and price 0.51, as the doubles of these literals: the exact quantity lies
  just below 5937.5, and the value computed is 5938.
\<close>

lemma pnlBps_decimal:
  "pnlBps (Finite (literal (51 / 100))) (Finite (literal (32 / 100))) = Finite 5938"
  by code_simp

lemma exact_decimal:
  "(literal (51 / 100) - literal (32 / 100)) / literal (32 / 100) * 10000 < 5937 + 1 / 2"
  "round ((literal (51 / 100) - literal (32 / 100)) / literal (32 / 100) * 10000) = 5937"
  by code_simp+

lemma sample_products:
  "js_times (Finite (1 / 4)) (Finite 3000) = Finite 750"
  "js_times (Finite (1 / 16)) (Finite 3000) = Finite (375 / 2)"
  "js_times (Finite (1 / 2)) (Finite 2) = Finite 1"
  by code_simp+

lemma sample_balance: "literal (1 / 16) = 1 / 16"
  by code_simp

text \<open>The double of the literal \<^verbatim>\<open>0.1\<close>.\<close>

lemma literal_tenth: "literal (1 / 10) = 3602879701896397 / 36028797018963968"
  by code_simp

section \<open>The health gate\<close>

lemma healthCheck_healthy_iff:
  "fst (healthCheck env s) \<longleftrightarrow> hasSufficientBalance env (calls s) = Inr True"
  unfolding healthCheck_def invoke_def tryCatch_def Let_def
  by (auto simp: bindE_def split: sum.splits)

lemma healthCheck_calls:
  assumes "c \<in> set (newCalls s (snd (healthCheck env s)))"
  shows "c = HasSufficientBalance \<or> c = GetBalance \<or> (\<exists>m. c = PostTweetWithRateLimit m)"
  using assms unfolding healthCheck_def invoke_def tryCatch_def Let_def
  by (auto simp: bindE_def split: sum.splits if_splits)

text \<open>
  Claim C3. When the health check returns false, and in particular when the balance query
  throws, \<^verbatim>\<open>runOneIteration\<close> returns \<open>ok = false\<close> with the message of the gate, and
  none of the calls it has made is a call to the AI collaborator or to the trading
  collaborator.
\<close>

theorem unhealthy_iteration_makes_no_calls:
  assumes "\<not> fst (healthCheck env s) \<or> (\<exists>e. hasSufficientBalance env (calls s) = Inl e)"
  shows "fst (runOneIteration env s) = \<lparr>ok = False, message = ''Health check failed''\<rparr>
       \<and> (\<forall>c\<in>set (newCalls s (snd (runOneIteration env s))). \<not> isAiCall c \<and> \<not> isTradingCall c)"
proof -
  from assms have u: "\<not> fst (healthCheck env s)"
    by (auto simp: healthCheck_healthy_iff)
  then have r: "runOneIteration env s
      = (\<lparr>ok = False, message = ''Health check failed''\<rparr>, snd (healthCheck env s))"
    by (cases "healthCheck env s") (simp add: runOneIteration_def)
  show ?thesis
    unfolding r using healthCheck_calls [of _ s env] by fastforce
qed

theorem unhealthy_iteration_makes_no_calls_witness:
  "hasSufficientBalance balanceDownEnv (calls freshState) = Inl ''rpc unreachable''
   \<and> fst (runOneIteration balanceDownEnv freshState)
       = \<lparr>ok = False, message = ''Health check failed''\<rparr>
   \<and> newCalls freshState (snd (runOneIteration balanceDownEnv freshState)) = [HasSufficientBalance]"
proof -
  have a: "hasSufficientBalance balanceDownEnv (calls freshState) = Inl ''rpc unreachable''"
    by (simp add: balanceDownEnv_def sampleEnv_def)
  then have "\<not> fst (healthCheck balanceDownEnv freshState)
       \<or> (\<exists>e. hasSufficientBalance balanceDownEnv (calls freshState) = Inl e)"
    by simp
  from unhealthy_iteration_makes_no_calls [OF this] a show ?thesis
    by (simp add: runOneIteration_def healthCheck_def invoke_def newCalls_def freshState_def)
qed

section \<open>The call log grows\<close>

text \<open>
  No function of the orchestrator takes a call back: what is a prefix of the log before a
  function runs is a prefix of the log after it.
\<close>

lemma grows_invoke: "prefix h (calls s) \<Longrightarrow> prefix h (calls (snd (invoke c f s)))"
  by (simp add: invoke_def prefix_def) auto

lemma grows_bindE:
  assumes "prefix h (calls (snd m))"
      and "\<And>x s'. prefix h (calls s') \<Longrightarrow> prefix h (calls (snd (f x s')))"
  shows "prefix h (calls (snd (bindE m f)))"
  using assms by (cases m) (auto simp: bindE_def split: sum.splits)

lemmas grows = grows_invoke grows_bindE

lemma grows_healthCheck: "prefix h (calls s) \<Longrightarrow> prefix h (calls (snd (healthCheck env s)))"
proof -
  assume p: "prefix h (calls s)"
  have "prefix h (calls (snd (bindE (invoke HasSufficientBalance (hasSufficientBalance env) s)
          (\<lambda>hasBalance s1.
          if \<not> hasBalance then
            bindE (invoke GetBalance (getBalance env) s1) (\<lambda>balance s2.
              let alertMessage = lowBalanceAlert env balance in
              (Inr False,
               tryCatch (invoke (PostTweetWithRateLimit alertMessage)
                                (postTweetWithRateLimit env alertMessage) s2)))
          else (Inr True, s1)))))"
    unfolding tryCatch_def Let_def using p by (auto intro!: grows)
  then show ?thesis
    unfolding healthCheck_def by (auto split: prod.splits sum.splits)
qed

lemma grows_recordPost: "prefix h (calls s) \<Longrightarrow> prefix h (calls (snd (recordPost env p s)))"
  unfolding recordPost_def by (rule grows_invoke)

lemma grows_tweetAndRecord:
  "prefix h (calls s) \<Longrightarrow> prefix h (calls (snd (tweetAndRecord env t pt r s)))"
  unfolding tweetAndRecord_def by (auto intro!: grows grows_recordPost)

lemma grows_castAndRecord:
  "prefix h (calls s) \<Longrightarrow> prefix h (calls (snd (castAndRecord env t pt r s)))"
  unfolding castAndRecord_def by (auto intro!: grows grows_recordPost)

lemma grows_entryFanout: "prefix h (calls s) \<Longrightarrow> prefix h (calls (entryFanout env p i s))"
  unfolding entryFanout_def tryCatch_def Let_def
  by (auto intro!: grows grows_tweetAndRecord grows_castAndRecord)

lemma grows_exitFanout: "prefix h (calls s) \<Longrightarrow> prefix h (calls (exitFanout env p i s))"
  unfolding exitFanout_def tryCatch_def Let_def
  by (auto intro!: grows grows_tweetAndRecord grows_castAndRecord)

lemma grows_summaryFanout: "prefix h (calls s) \<Longrightarrow> prefix h (calls (summaryFanout env p s))"
  unfolding summaryFanout_def tryCatch_def Let_def
  by (auto intro!: grows grows_tweetAndRecord grows_castAndRecord)

lemma grows_buyDecision:
  "prefix h (calls s) \<Longrightarrow> prefix h (calls (snd (buyDecision env mp d s)))"
  unfolding buyDecision_def Let_def
  by (auto intro!: grows grows_entryFanout)

lemma grows_sellDecision:
  "prefix h (calls s) \<Longrightarrow> prefix h (calls (snd (sellDecision env d s)))"
  unfolding sellDecision_def Let_def
  by (auto intro!: grows grows_exitFanout split: option.splits)

lemma grows_tryDecision:
  assumes "prefix h (calls s)"
  shows "prefix h (calls (snd (tryDecision env mp d s)))"
proof -
  have "prefix h (calls (snd (if action d = BUY then
           bindE (buyDecision env mp d s) (\<lambda>_ s'. (Inr True, s'))
         else if action d = SELL then sellDecision env d s
         else (Inr False, s))))"
    using assms by (auto intro!: grows grows_buyDecision grows_sellDecision)
  then show ?thesis
    unfolding tryDecision_def by (auto split: prod.splits sum.splits)
qed

lemma grows_decisionLoop:
  "prefix h (calls s) \<Longrightarrow> prefix h (calls (snd (decisionLoop env mp ds executed skipped s)))"
proof (induction ds arbitrary: executed skipped s)
  case Nil
  then show ?case by simp
next
  case (Cons d ds)
  obtain counted s' where t: "tryDecision env mp d s = (counted, s')"
    by (cases "tryDecision env mp d s")
  then have "prefix h (calls s')"
    using grows_tryDecision [OF Cons.prems, of env mp d] by simp
  with t Cons show ?case by simp
qed

lemma grows_executeTradingDecisions:
  "prefix h (calls s) \<Longrightarrow> prefix h (calls (snd (executeTradingDecisions env ds mp s)))"
  using grows_decisionLoop [of h s env mp ds 0 0]
  by (cases "decisionLoop env mp ds 0 0 s") (auto simp: executeTradingDecisions_def)

lemma grows_postCommentary: "prefix h (calls s) \<Longrightarrow> prefix h (calls (postCommentary env a s))"
  unfolding postCommentary_def tryCatch_def Let_def
  by (auto intro!: grows)

lemma grows_roundSummary: "prefix h (calls s) \<Longrightarrow> prefix h (calls (roundSummary env p s))"
  unfolding roundSummary_def tryCatch_def
  by (auto intro!: grows)

lemma grows_tipDisbursement: "prefix h (calls s) \<Longrightarrow> prefix h (calls (tipDisbursement env s))"
  unfolding tipDisbursement_def tryCatch_def Let_def
  by (auto intro!: grows split: option.splits)

lemma grows_getUnprocessedMentions:
  "prefix h (calls s) \<Longrightarrow> prefix h (calls (snd (getUnprocessedMentions env s)))"
  unfolding getUnprocessedMentions_def by (rule grows_invoke)

lemma grows_recordMention:
  "prefix h (calls s) \<Longrightarrow> prefix h (calls (snd (recordMention env m s)))"
  unfolding recordMention_def by (auto simp: prefix_def split: option.splits)

lemma grows_markMentionReplied:
  "prefix h (calls s) \<Longrightarrow> prefix h (calls (snd (markMentionReplied env i r s)))"
  unfolding markMentionReplied_def by (auto simp: prefix_def split: option.splits)

lemma grows_processTwitterMention:
  "prefix h (calls s) \<Longrightarrow> prefix h (calls (processTwitterMention env m s))"
  unfolding processTwitterMention_def tryCatch_def Let_def
  by (auto intro!: grows grows_getUnprocessedMentions grows_recordMention
      grows_markMentionReplied grows_recordPost split: option.splits)

lemma grows_processFarcasterMention:
  "prefix h (calls s) \<Longrightarrow> prefix h (calls (processFarcasterMention env m s))"
  unfolding processFarcasterMention_def tryCatch_def Let_def
  by (auto intro!: grows grows_getUnprocessedMentions grows_recordMention
      grows_markMentionReplied grows_recordPost split: option.splits)

lemma grows_forEachTwitterMention:
  "prefix h (calls s) \<Longrightarrow> prefix h (calls (forEachTwitterMention env ms s))"
  by (induction ms arbitrary: s) (simp_all add: grows_processTwitterMention)

lemma grows_forEachFarcasterMention:
  "prefix h (calls s) \<Longrightarrow> prefix h (calls (forEachFarcasterMention env ms s))"
  by (induction ms arbitrary: s) (simp_all add: grows_processFarcasterMention)

lemma grows_processMentions: "prefix h (calls s) \<Longrightarrow> prefix h (calls (processMentions env s))"
  unfolding processMentions_def tryCatch_def
  by (auto intro!: grows grows_forEachTwitterMention grows_forEachFarcasterMention)

lemma grows_postDailySummary: "prefix h (calls s) \<Longrightarrow> prefix h (calls (postDailySummary env s))"
  unfolding postDailySummary_def tryCatch_def Let_def
  by (auto intro!: grows grows_summaryFanout)

lemma newCalls_prefix:
  assumes "prefix (calls s @ xs) (calls s')"
  shows "prefix xs (newCalls s s')"
proof -
  from assms obtain zs where "calls s' = calls s @ xs @ zs" by (auto simp: prefix_def)
  then show ?thesis by (simp add: newCalls_def)
qed

section \<open>Position reconciliation\<close>

lemma positionWithPrice_run:
  "positionWithPrice env t s =
     (map_sum id (positionViewOf t) (getMarketPrice env (market_id t) (trade_position t) (calls s)),
      s\<lparr>calls := calls s @ [priceFetch t]\<rparr>)"
  by (cases "getMarketPrice env (market_id t) (trade_position t) (calls s)")
     (simp_all add: positionWithPrice_def invoke_def priceFetch_def)

lemma mapAsync_calls:
  "calls (snd (mapAsync env ts s)) = calls s @ map priceFetch ts"
proof (induction ts arbitrary: s)
  case Nil
  then show ?case by simp
next
  case (Cons t ts)
  obtain rs s2 where m: "mapAsync env ts (s\<lparr>calls := calls s @ [priceFetch t]\<rparr>) = (rs, s2)"
    by (cases "mapAsync env ts (s\<lparr>calls := calls s @ [priceFetch t]\<rparr>)")
  with Cons.IH [of "s\<lparr>calls := calls s @ [priceFetch t]\<rparr>"]
  have "calls s2 = calls s @ [priceFetch t] @ map priceFetch ts" by simp
  with m show ?case by (simp add: positionWithPrice_run)
qed

lemma mapAsync_length: "length (fst (mapAsync env ts s)) = length ts"
proof (induction ts arbitrary: s)
  case Nil
  then show ?case by simp
next
  case (Cons t ts)
  obtain rs s2 where m: "mapAsync env ts (s\<lparr>calls := calls s @ [priceFetch t]\<rparr>) = (rs, s2)"
    by (cases "mapAsync env ts (s\<lparr>calls := calls s @ [priceFetch t]\<rparr>)")
  with Cons.IH [of "s\<lparr>calls := calls s @ [priceFetch t]\<rparr>"] show ?case
    by (simp add: positionWithPrice_run)
qed

text \<open>The promise of the \<open>k\<close>-th trade is that of its fetch.\<close>

lemma mapAsync_nth:
  assumes "k < length ts"
  shows "fst (mapAsync env ts s) ! k
           = (fetchSettles env (calls s) ts k,
              map_sum id (positionViewOf (ts ! k)) (fetchOutcome env (calls s) ts k))"
  using assms
proof (induction ts arbitrary: s k)
  case Nil
  then show ?case by simp
next
  case (Cons t ts)
  let ?s1 = "s\<lparr>calls := calls s @ [priceFetch t]\<rparr>"
  obtain rs s2 where m: "mapAsync env ts ?s1 = (rs, s2)"
    by (cases "mapAsync env ts ?s1")
  show ?case
  proof (cases k)
    case 0
    with m show ?thesis
      by (simp add: positionWithPrice_run fetchSettles_def fetchOutcome_def id_def)
  next
    case (Suc j)
    with Cons.prems have "j < length ts" by simp
    from Cons.IH [OF this, of ?s1] m Suc show ?thesis
      by (simp add: positionWithPrice_run fetchSettles_def fetchOutcome_def id_def)
  qed
qed

lemma firstRejection_None:
  "firstRejection ps = None \<longleftrightarrow> (\<forall>a e. (a, Inl e) \<notin> set ps)"
proof (induction ps)
  case Nil
  show ?case by simp
next
  case (Cons p ps)
  obtain a r where p: "p = (a, r)" by (cases p)
  with Cons show ?case
    by (cases r) (auto split: option.splits)
qed

lemma firstRejection_Some:
  assumes "firstRejection ps = Some (a, e)"
  shows "(a, Inl e) \<in> set ps \<and> (\<forall>a' e'. (a', Inl e') \<in> set ps \<longrightarrow> a \<le> a')"
  using assms
proof (induction ps arbitrary: a e)
  case Nil
  then show ?case by simp
next
  case (Cons p ps)
  obtain b r where p: "p = (b, r)" by (cases p)
  show ?case
  proof (cases r)
    case (Inr x)
    with Cons p show ?thesis by auto
  next
    case (Inl x)
    show ?thesis
    proof (cases "firstRejection ps")
      case None
      with Cons.prems p Inl have "a = b" "e = x" by simp_all
      moreover from None have "\<forall>a e. (a, Inl e) \<notin> set ps" by (simp add: firstRejection_None)
      ultimately show ?thesis using p Inl by auto
    next
      case (Some q)
      obtain c y where q: "q = (c, y)" by (cases q)
      from Cons.IH [of c y] Some q
      have ih: "(c, Inl y) \<in> set ps" "\<forall>a' e'. (a', Inl e') \<in> set ps \<longrightarrow> c \<le> a'" by simp_all
      show ?thesis
      proof (cases "c < b")
        case True
        with Cons.prems p Inl Some q have "a = c" "e = y" by simp_all
        with ih True p Inl show ?thesis by auto
      next
        case False
        with Cons.prems p Inl Some q have "a = b" "e = x" by simp_all
        with ih False p Inl show ?thesis by fastforce
      qed
    qed
  qed
qed

lemma Promise_all_rejects:
  assumes "(a, Inl e) \<in> set ps"
  obtains b e' where "Promise_all ps = Inl e'" and "(b, Inl e') \<in> set ps"
    and "\<forall>a' e''. (a', Inl e'') \<in> set ps \<longrightarrow> b \<le> a'"
proof -
  from assms have "firstRejection ps \<noteq> None" by (auto simp: firstRejection_None)
  then obtain b e' where f: "firstRejection ps = Some (b, e')" by auto
  then have r: "Promise_all ps = Inl e'" by (simp add: Promise_all_def)
  from firstRejection_Some [OF f] have m: "(b, Inl e') \<in> set ps"
    and l: "\<forall>a' e''. (a', Inl e'') \<in> set ps \<longrightarrow> b \<le> a'"
    by blast+
  from r m l show ?thesis by (rule that)
qed

lemma Promise_all_resolves: "map snd ps = map Inr xs \<Longrightarrow> Promise_all ps = Inr xs"
proof -
  assume m: "map snd ps = map Inr xs"
  have "\<forall>a e. (a, Inl e) \<notin> set ps"
  proof (intro allI notI)
    fix a e
    assume "(a, Inl e) \<in> set ps"
    then have "snd (a, Inl e) \<in> snd ` set ps" by (rule imageI)
    then have "Inl e \<in> set (map snd ps)" by simp
    with m show False by auto
  qed
  then have n: "firstRejection ps = None" by (simp add: firstRejection_None)
  from m have "concat (map (\<lambda>p. case snd p of Inr x \<Rightarrow> [x] | Inl e \<Rightarrow> []) ps) = xs"
  proof (induction ps arbitrary: xs)
    case Nil
    then show ?case by simp
  next
    case (Cons p ps)
    then show ?case by (cases xs) auto
  qed
  with n show ?thesis by (simp add: Promise_all_def)
qed

lemma reconciliation_calls:
  "calls (snd (openPositionsWithPrices env ts s)) = calls s @ map priceFetch ts"
  using mapAsync_calls [of env ts s]
  by (cases "mapAsync env ts s") (simp add: openPositionsWithPrices_def)

text \<open>When every fetch resolves, there is the view of every trade, in the order of the trades.\<close>

lemma reconciliation_resolves:
  assumes "length prices = length ts"
      and "\<forall>k<length ts. fetchOutcome env (calls s) ts k = Inr (prices ! k)"
  shows "fst (openPositionsWithPrices env ts s) = Inr (map2 positionViewOf ts prices)"
proof -
  have "map snd (fst (mapAsync env ts s)) = map Inr (map2 positionViewOf ts prices)"
    using assms by (intro nth_equalityI) (simp_all add: mapAsync_length mapAsync_nth)
  then have "Promise_all (fst (mapAsync env ts s)) = Inr (map2 positionViewOf ts prices)"
    by (rule Promise_all_resolves)
  then show ?thesis
    by (cases "mapAsync env ts s") (simp add: openPositionsWithPrices_def)
qed

text \<open>
  When a fetch rejects, the reconciliation rejects, with the error of the rejected fetch
  that settles first.
\<close>

lemma reconciliation_rejects:
  assumes "k < length ts" and "fetchOutcome env (calls s) ts k = Inl e"
  obtains j e' where "j < length ts" and "fetchOutcome env (calls s) ts j = Inl e'"
    and "fst (openPositionsWithPrices env ts s) = Inl e'"
    and "\<forall>i<length ts. (\<exists>e''. fetchOutcome env (calls s) ts i = Inl e'')
           \<longrightarrow> fetchSettles env (calls s) ts j \<le> fetchSettles env (calls s) ts i"
proof -
  let ?ps = "fst (mapAsync env ts s)"
  have nth: "?ps ! i = (fetchSettles env (calls s) ts i,
               map_sum id (positionViewOf (ts ! i)) (fetchOutcome env (calls s) ts i))"
    if "i < length ts" for i
    using that by (rule mapAsync_nth)
  have len: "length ?ps = length ts" by (rule mapAsync_length)
  have "?ps ! k = (fetchSettles env (calls s) ts k, Inl e)"
    using nth [OF assms(1)] assms(2) by simp
  moreover have "?ps ! k \<in> set ?ps"
    using assms(1) len by (intro nth_mem) simp
  ultimately have "(fetchSettles env (calls s) ts k, Inl e) \<in> set ?ps"
    by simp
  then obtain b e' where r: "Promise_all ?ps = Inl e'" and m: "(b, Inl e') \<in> set ?ps"
    and least: "\<forall>a' e''. (a', Inl e'') \<in> set ?ps \<longrightarrow> b \<le> a'"
    by (rule Promise_all_rejects)
  from m obtain j where j: "j < length ts" "?ps ! j = (b, Inl e')"
    using len by (auto simp: in_set_conv_nth)
  with nth [of j] have b: "b = fetchSettles env (calls s) ts j"
    and o: "fetchOutcome env (calls s) ts j = Inl e'"
    by (cases "fetchOutcome env (calls s) ts j"; simp)+
  have "fetchSettles env (calls s) ts j \<le> fetchSettles env (calls s) ts i"
    if "i < length ts" "fetchOutcome env (calls s) ts i = Inl e''" for i e''
  proof -
    have "?ps ! i = (fetchSettles env (calls s) ts i, Inl e'')"
      using nth [OF that(1)] that(2) by simp
    moreover have "?ps ! i \<in> set ?ps"
      using that(1) len by (intro nth_mem) simp
    ultimately have "(fetchSettles env (calls s) ts i, Inl e'') \<in> set ?ps"
      by simp
    with least b show ?thesis by blast
  qed
  moreover have "fst (openPositionsWithPrices env ts s) = Inl e'"
    using r by (cases "mapAsync env ts s") (simp add: openPositionsWithPrices_def)
  ultimately show ?thesis using j(1) o by (intro that [of j e']) blast+
qed

lemma iterationBody_reconciliation_fails:
  assumes "fetchMarkets env (calls s) = Inr markets"
      and "getBalance env (calls s @ [FetchMarkets]) = Inr balance"
      and "getOpenTrades env (calls s @ [FetchMarkets, GetBalance]) = Inr openTrades"
      and "fst (openPositionsWithPrices env openTrades
                  (s\<lparr>calls := calls s @ [FetchMarkets, GetBalance, GetOpenTrades]\<rparr>)) = Inl e"
  shows "iterationBody env s =
           (Inl e, snd (openPositionsWithPrices env openTrades
                          (s\<lparr>calls := calls s @ [FetchMarkets, GetBalance, GetOpenTrades]\<rparr>)))"
  using assms by (simp add: iterationBody_def invoke_def bindE_rejected)

lemma bindE_resolved: "fst m = Inr x \<Longrightarrow> bindE m f = f x (snd m)"
  by (cases m) (simp add: bindE_def)

lemma grows_executed:
  assumes "executeTradingDecisions env ds mp s = (n, s')" and "prefix h (calls s)"
  shows "prefix h (calls s')"
  using grows_executeTradingDecisions [OF assms(2), of env ds mp] assms(1) by simp

text \<open>The rest of the iteration, from the answer of the analyzer on.\<close>

lemma grows_rest:
  assumes "prefix h (calls s6)"
  shows "prefix h (calls (snd
    (let s7 = (if truthy (marketCommentary a) then postCommentary env a s6 else s6);
         priceMap = map_of (rev (map (\<lambda>m. (m_id m, \<lparr>yesPrice = m_yesPrice m,
                                                     noPrice = m_noPrice m\<rparr>)) markets))
     in
     (case executeTradingDecisions env (decisions a) priceMap s7 of
        (executed, s8) \<Rightarrow>
          bindE (invoke ProcessNotableTrades (processNotableTrades env) s8) (\<lambda>_ s9.
          let s10 = postDailySummary env (processMentions env s9);
              s11 = roundSummary env
                      \<lparr>portfolioEth = weiToEth env balance,
                       round_openPositions = length openTrades,
                       marketsScanned = length markets,
                       decisionsCount = length (decisions a),
                       tradesExecuted = executed,
                       hasCommentary =
                         (case marketCommentary a of
                            None \<Rightarrow> False
                          | Some c \<Rightarrow> trim env c \<noteq> [])\<rparr> s10
          in (Inr (), tipDisbursement env s11))))))"
  unfolding Let_def using assms
  by (auto intro!: grows grows_tipDisbursement grows_roundSummary grows_postDailySummary
      grows_processMentions grows_postCommentary
      elim: grows_executed split: prod.splits)

text \<open>
  When the reconciliation and the headlines resolve, the analyzer is called next, with the
  views of the reconciliation.
\<close>

lemma iteration_analyzes:
  assumes "fetchMarkets env (calls s1) = Inr markets"
      and "getBalance env (calls s1 @ [FetchMarkets]) = Inr balance"
      and "getOpenTrades env (calls s1 @ [FetchMarkets, GetBalance]) = Inr openTrades"
      and "h = calls s1 @ [FetchMarkets, GetBalance, GetOpenTrades]"
      and "fst (openPositionsWithPrices env openTrades (s1\<lparr>calls := h\<rparr>)) = Inr views"
      and "fetchNewsHeadlines env 5 (h @ map priceFetch openTrades) = Inr news"
  shows "prefix (h @ map priceFetch openTrades
                 @ [FetchNewsHeadlines 5, AnalyzeMarkets (weiToEth env balance) views markets news])
           (calls (snd (iterationBody env s1)))"
proof -
  let ?s4 = "snd (openPositionsWithPrices env openTrades (s1\<lparr>calls := h\<rparr>))"
  let ?s5 = "?s4\<lparr>calls := calls ?s4 @ [FetchNewsHeadlines 5]\<rparr>"
  have c4: "calls ?s4 = h @ map priceFetch openTrades"
    by (simp add: reconciliation_calls)
  have "iterationBody env s1 =
      bindE (invoke (AnalyzeMarkets (weiToEth env balance) views markets news)
                   (analyzeMarkets env (weiToEth env balance) views markets news) ?s5)
       (\<lambda>a s6.
     let s7 = (if truthy (marketCommentary a) then postCommentary env a s6 else s6);
         priceMap = map_of (rev (map (\<lambda>m. (m_id m, \<lparr>yesPrice = m_yesPrice m,
                                                     noPrice = m_noPrice m\<rparr>)) markets))
     in
     (case executeTradingDecisions env (decisions a) priceMap s7 of
        (executed, s8) \<Rightarrow>
          bindE (invoke ProcessNotableTrades (processNotableTrades env) s8) (\<lambda>_ s9.
          let s10 = postDailySummary env (processMentions env s9);
              s11 = roundSummary env
                      \<lparr>portfolioEth = weiToEth env balance,
                       round_openPositions = length openTrades,
                       marketsScanned = length markets,
                       decisionsCount = length (decisions a),
                       tradesExecuted = executed,
                       hasCommentary =
                         (case marketCommentary a of
                            None \<Rightarrow> False
                          | Some c \<Rightarrow> trim env c \<noteq> [])\<rparr> s10
          in (Inr (), tipDisbursement env s11))))"
    using assms(1,2,3,6) assms(5) [unfolded assms(4)] c4 [unfolded assms(4)]
    unfolding iterationBody_def assms(4)
    by (simp add: invoke_def bindE_resolved)
  moreover have "prefix (h @ map priceFetch openTrades
                 @ [FetchNewsHeadlines 5, AnalyzeMarkets (weiToEth env balance) views markets news])
      (calls (snd (invoke (AnalyzeMarkets (weiToEth env balance) views markets news)
                   (analyzeMarkets env (weiToEth env balance) views markets news) ?s5)))"
    by (simp add: invoke_def c4)
  ultimately show ?thesis
    by (simp only:) (intro grows_bindE grows_rest)
qed

text \<open>
  Claim C1, as amended. The price fetch of every open trade is issued, whatever the
  other fetches do. When the fetch of an open trade fails, at the history at which it is
  issued, the reconciliation fails as a whole: after the fetches nothing more is called, so
  the analyzer never runs, and the iteration returns \<open>ok = false\<close> with the message of a
  failed fetch, the one that settles first; that is the message of the given fetch when no
  other fails. When all the fetches succeed the reconciliation yields one position view
  for each open trade, in the order of the trades, each with the fetched price and the
  P&L computed from it; the iteration goes on to fetch the headlines and, when they
  resolve, calls the analyzer with these views.
\<close>

theorem failed_price_fetch_aborts_iteration:
  fixes h :: "call list"
  assumes "healthCheck env s = (True, s1)"
      and "fetchMarkets env (calls s1) = Inr markets"
      and "getBalance env (calls s1 @ [FetchMarkets]) = Inr balance"
      and "getOpenTrades env (calls s1 @ [FetchMarkets, GetBalance]) = Inr openTrades"
      and "h = calls s1 @ [FetchMarkets, GetBalance, GetOpenTrades]"
  shows "(\<forall>k e. k < length openTrades \<and> fetchOutcome env h openTrades k = Inl e \<longrightarrow>
            ok (fst (runOneIteration env s)) = False
          \<and> newCalls s1 (snd (runOneIteration env s))
              = [FetchMarkets, GetBalance, GetOpenTrades] @ map priceFetch openTrades
          \<and> (\<exists>j<length openTrades.
                fetchOutcome env h openTrades j = Inl (message (fst (runOneIteration env s)))
              \<and> (\<forall>i<length openTrades. (\<exists>e'. fetchOutcome env h openTrades i = Inl e')
                    \<longrightarrow> fetchSettles env h openTrades j \<le> fetchSettles env h openTrades i))
          \<and> ((\<forall>i<length openTrades. i \<noteq> k \<longrightarrow> (\<exists>p. fetchOutcome env h openTrades i = Inr p))
                \<longrightarrow> message (fst (runOneIteration env s)) = e))
       \<and> (\<forall>prices. length prices = length openTrades
               \<and> (\<forall>k<length openTrades. fetchOutcome env h openTrades k = Inr (prices ! k)) \<longrightarrow>
            fst (openPositionsWithPrices env openTrades (s1\<lparr>calls := h\<rparr>))
              = Inr (map2 positionViewOf openTrades prices)
          \<and> (\<forall>news. fetchNewsHeadlines env 5 (h @ map priceFetch openTrades) = Inr news \<longrightarrow>
                prefix ([FetchMarkets, GetBalance, GetOpenTrades] @ map priceFetch openTrades
                        @ [FetchNewsHeadlines 5,
                           AnalyzeMarkets (weiToEth env balance)
                             (map2 positionViewOf openTrades prices) markets news])
                  (newCalls s1 (snd (runOneIteration env s)))))"
proof (intro conjI allI impI)
  fix prices
  assume "length prices = length openTrades
     \<and> (\<forall>k<length openTrades. fetchOutcome env h openTrades k = Inr (prices ! k))"
  then show v: "fst (openPositionsWithPrices env openTrades (s1\<lparr>calls := h\<rparr>))
              = Inr (map2 positionViewOf openTrades prices)"
    by (intro reconciliation_resolves) simp_all
  fix news
  assume "fetchNewsHeadlines env 5 (h @ map priceFetch openTrades) = Inr news"
  with assms(2,3,4,5) v
  have "prefix (h @ map priceFetch openTrades
                 @ [FetchNewsHeadlines 5,
                    AnalyzeMarkets (weiToEth env balance)
                      (map2 positionViewOf openTrades prices) markets news])
           (calls (snd (iterationBody env s1)))"
    by (rule iteration_analyzes)
  moreover have "snd (runOneIteration env s) = snd (iterationBody env s1)"
    by (simp add: runOneIteration_def assms(1) split: prod.splits sum.splits)
  ultimately show "prefix ([FetchMarkets, GetBalance, GetOpenTrades] @ map priceFetch openTrades
                        @ [FetchNewsHeadlines 5,
                           AnalyzeMarkets (weiToEth env balance)
                             (map2 positionViewOf openTrades prices) markets news])
                  (newCalls s1 (snd (runOneIteration env s)))"
    unfolding assms(5) by (intro newCalls_prefix) simp
next
  fix k e
  assume "k < length openTrades \<and> fetchOutcome env h openTrades k = Inl e"
  then have k: "k < length openTrades" "fetchOutcome env (calls (s1\<lparr>calls := h\<rparr>)) openTrades k = Inl e"
    by simp_all
  let ?s3 = "s1\<lparr>calls := h\<rparr>"
  from k obtain j e' where j: "j < length openTrades"
      and o: "fetchOutcome env h openTrades j = Inl e'"
      and rej: "fst (openPositionsWithPrices env openTrades ?s3) = Inl e'"
      and least: "\<forall>i<length openTrades. (\<exists>e''. fetchOutcome env h openTrades i = Inl e'')
           \<longrightarrow> fetchSettles env h openTrades j \<le> fetchSettles env h openTrades i"
    by (rule reconciliation_rejects) simp_all
  have b: "iterationBody env s1 = (Inl e', snd (openPositionsWithPrices env openTrades ?s3))"
    using assms(2,3,4) rej unfolding assms(5)
    by (intro iterationBody_reconciliation_fails) simp_all
  have r: "runOneIteration env s
             = (\<lparr>ok = False, message = e'\<rparr>, snd (openPositionsWithPrices env openTrades ?s3))"
    by (simp add: runOneIteration_def assms(1) b)
  have c: "calls (snd (openPositionsWithPrices env openTrades ?s3))
             = calls s1 @ [FetchMarkets, GetBalance, GetOpenTrades] @ map priceFetch openTrades"
    by (simp add: reconciliation_calls assms(5))
  show "ok (fst (runOneIteration env s)) = False" by (simp add: r)
  show "newCalls s1 (snd (runOneIteration env s))
          = [FetchMarkets, GetBalance, GetOpenTrades] @ map priceFetch openTrades"
    by (simp add: r c newCalls_def)
  show "\<exists>j<length openTrades.
          fetchOutcome env h openTrades j = Inl (message (fst (runOneIteration env s)))
        \<and> (\<forall>i<length openTrades. (\<exists>e'. fetchOutcome env h openTrades i = Inl e')
              \<longrightarrow> fetchSettles env h openTrades j \<le> fetchSettles env h openTrades i)"
    using j o least by (auto simp: r)
  show "message (fst (runOneIteration env s)) = e"
    if only: "\<forall>i<length openTrades. i \<noteq> k \<longrightarrow> (\<exists>p. fetchOutcome env h openTrades i = Inr p)"
  proof -
    have "j = k"
    proof (rule ccontr)
      assume "j \<noteq> k"
      with only j obtain p where "fetchOutcome env h openTrades j = Inr p" by blast
      with o show False by simp
    qed
    with o k(2) show ?thesis by (simp add: r)
  qed
qed

text \<open>
  Two open trades; the fetch of the first resolves and that of the second throws. And the
  sample run, in which the one fetch resolves.
\<close>

theorem failed_price_fetch_aborts_iteration_witness:
  "healthCheck priceDownEnv freshState = (True, freshState\<lparr>calls := [HasSufficientBalance]\<rparr>)
   \<and> getOpenTrades priceDownEnv [HasSufficientBalance, FetchMarkets, GetBalance]
       = Inr [sampleTrade, secondTrade]
   \<and> fetchOutcome priceDownEnv [HasSufficientBalance, FetchMarkets, GetBalance, GetOpenTrades]
        [sampleTrade, secondTrade] 0 = Inr (Finite 120)
   \<and> fetchOutcome priceDownEnv [HasSufficientBalance, FetchMarkets, GetBalance, GetOpenTrades]
        [sampleTrade, secondTrade] 1 = Inl ''price feed down''
   \<and> ok (fst (runOneIteration priceDownEnv freshState)) = False
   \<and> message (fst (runOneIteration priceDownEnv freshState)) = ''price feed down''
   \<and> newCalls (freshState\<lparr>calls := [HasSufficientBalance]\<rparr>)
        (snd (runOneIteration priceDownEnv freshState))
       = [FetchMarkets, GetBalance, GetOpenTrades, priceFetch sampleTrade, priceFetch secondTrade]
   \<and> fetchOutcome sampleEnv [HasSufficientBalance, FetchMarkets, GetBalance, GetOpenTrades]
        [sampleTrade] 0 = Inr (Finite 120)
   \<and> fst (openPositionsWithPrices sampleEnv [sampleTrade]
        (freshState\<lparr>calls := [HasSufficientBalance, FetchMarkets, GetBalance, GetOpenTrades]\<rparr>))
       = Inr [\<lparr>pv_marketId = ''btc-100k'', pv_marketName = ''BTC above 100k'', pv_position = NO,
               pv_entryPrice = Finite 100, pv_currentPrice = Finite 120,
               pv_pnlBps = Finite 2000\<rparr>]
   \<and> prefix [FetchMarkets, GetBalance, GetOpenTrades, priceFetch sampleTrade,
              FetchNewsHeadlines 5,
              AnalyzeMarkets (1 / 16)
                [\<lparr>pv_marketId = ''btc-100k'', pv_marketName = ''BTC above 100k'',
                  pv_position = NO, pv_entryPrice = Finite 100, pv_currentPrice = Finite 120,
                  pv_pnlBps = Finite 2000\<rparr>] [] []]
        (newCalls (freshState\<lparr>calls := [HasSufficientBalance]\<rparr>)
           (snd (runOneIteration sampleEnv freshState)))"
proof -
  let ?s1 = "freshState\<lparr>calls := [HasSufficientBalance]\<rparr>"
  let ?h = "[HasSufficientBalance, FetchMarkets, GetBalance, GetOpenTrades]"
  have a: "healthCheck priceDownEnv freshState = (True, ?s1)"
    "healthCheck sampleEnv freshState = (True, ?s1)"
    by (simp_all add: healthCheck_def invoke_def priceDownEnv_def sampleEnv_def freshState_def)
  have b: "fetchMarkets priceDownEnv h = Inr []"
    "getBalance priceDownEnv h = Inr 62500000000000000"
    "getOpenTrades priceDownEnv h = Inr [sampleTrade, secondTrade]"
    "fetchMarkets sampleEnv h = Inr []"
    "getBalance sampleEnv h = Inr 62500000000000000"
    "getOpenTrades sampleEnv h = Inr [sampleTrade]" for h
    by (simp_all add: priceDownEnv_def sampleEnv_def)
  have h: "?h = calls ?s1 @ [FetchMarkets, GetBalance, GetOpenTrades]"
    by (simp add: freshState_def)
  have d: "fetchOutcome priceDownEnv ?h [sampleTrade, secondTrade] 0 = Inr (Finite 120)"
    "fetchOutcome priceDownEnv ?h [sampleTrade, secondTrade] 1 = Inl ''price feed down''"
    "fetchOutcome sampleEnv ?h [sampleTrade] 0 = Inr (Finite 120)"
    by (simp_all add: fetchOutcome_def priceDownEnv_def sampleEnv_def sampleTrade_def
        secondTrade_def)
  have only: "\<forall>i<length [sampleTrade, secondTrade]. i \<noteq> 1
      \<longrightarrow> (\<exists>p. fetchOutcome priceDownEnv ?h [sampleTrade, secondTrade] i = Inr p)"
    using d(1) by (auto simp: less_Suc_eq)
  have k: "1 < length [sampleTrade, secondTrade]
      \<and> fetchOutcome priceDownEnv ?h [sampleTrade, secondTrade] 1 = Inl ''price feed down''"
    using d(2) by simp
  note down = failed_price_fetch_aborts_iteration [OF a(1) b(1) b(2) b(3) h,
      THEN conjunct1, rule_format, OF k]
  have f: "ok (fst (runOneIteration priceDownEnv freshState)) = False"
    using down by (rule conjunct1)
  have "newCalls ?s1 (snd (runOneIteration priceDownEnv freshState))
       = [FetchMarkets, GetBalance, GetOpenTrades] @ map priceFetch [sampleTrade, secondTrade]"
    using down by (elim conjE)
  then have g: "newCalls ?s1 (snd (runOneIteration priceDownEnv freshState))
       = [FetchMarkets, GetBalance, GetOpenTrades, priceFetch sampleTrade, priceFetch secondTrade]"
    by simp
  have m: "message (fst (runOneIteration priceDownEnv freshState)) = ''price feed down''"
    using down only by (elim conjE) (erule mp)
  have p: "length [Finite 120] = length [sampleTrade]
      \<and> (\<forall>k<length [sampleTrade]. fetchOutcome sampleEnv ?h [sampleTrade] k = Inr ([Finite 120] ! k))"
    using d(3) by simp
  note up = failed_price_fetch_aborts_iteration [OF a(2) b(4) b(5) b(6) h,
      THEN conjunct2, rule_format, OF p]
  have n: "fetchNewsHeadlines sampleEnv 5 (?h @ map priceFetch [sampleTrade]) = Inr []"
    by (simp add: sampleEnv_def)
  have "prefix ([FetchMarkets, GetBalance, GetOpenTrades] @ map priceFetch [sampleTrade]
                @ [FetchNewsHeadlines 5,
                   AnalyzeMarkets (weiToEth sampleEnv 62500000000000000)
                     (map2 positionViewOf [sampleTrade] [Finite 120]) [] []])
          (newCalls ?s1 (snd (runOneIteration sampleEnv freshState)))"
    using up [THEN conjunct2, rule_format, OF n] .
  then have w: "prefix [FetchMarkets, GetBalance, GetOpenTrades, priceFetch sampleTrade,
              FetchNewsHeadlines 5,
              AnalyzeMarkets (1 / 16)
                [\<lparr>pv_marketId = ''btc-100k'', pv_marketName = ''BTC above 100k'',
                  pv_position = NO, pv_entryPrice = Finite 100, pv_currentPrice = Finite 120,
                  pv_pnlBps = Finite 2000\<rparr>] [] []]
        (newCalls ?s1 (snd (runOneIteration sampleEnv freshState)))"
    by (simp add: positionViewOf_def sampleTrade_def pnlBps_120_100 sampleEnv_def
        sample_balance)
  have "fst (openPositionsWithPrices sampleEnv [sampleTrade] (?s1\<lparr>calls := ?h\<rparr>))
       = Inr (map2 positionViewOf [sampleTrade] [Finite 120])"
    using up by (rule conjunct1)
  then have v: "fst (openPositionsWithPrices sampleEnv [sampleTrade] (freshState\<lparr>calls := ?h\<rparr>))
       = Inr [\<lparr>pv_marketId = ''btc-100k'', pv_marketName = ''BTC above 100k'', pv_position = NO,
               pv_entryPrice = Finite 100, pv_currentPrice = Finite 120,
               pv_pnlBps = Finite 2000\<rparr>]"
    by (simp add: positionViewOf_def sampleTrade_def pnlBps_120_100)
  show ?thesis
    by (intro conjI) (fact a b d f g m v w)+
qed

lemma priceDown_run:
  "runOneIteration priceDownEnv freshState
     = (\<lparr>ok = False, message = ''price feed down''\<rparr>,
        freshState\<lparr>calls := [HasSufficientBalance, FetchMarkets, GetBalance, GetOpenTrades,
                              GetMarketPrice ''btc-100k'' NO, GetMarketPrice ''eth-5k'' YES]\<rparr>)"
  by (simp add: runOneIteration_def healthCheck_def iterationBody_def invoke_def
      openPositionsWithPrices_def Promise_all_def positionWithPrice_def priceDownEnv_def
      sampleEnv_def sampleTrade_def secondTrade_def freshState_def)

text \<open>
  When both fetches throw, the message is that of the fetch that settles first, here the
  one issued second.
\<close>

lemma pricesDown_run:
  "fst (runOneIteration pricesDownEnv freshState) = \<lparr>ok = False, message = ''price feed down''\<rparr>"
  by (simp add: runOneIteration_def healthCheck_def iterationBody_def invoke_def
      openPositionsWithPrices_def Promise_all_def positionWithPrice_def pricesDownEnv_def
      sampleEnv_def sampleTrade_def secondTrade_def freshState_def)

text \<open>
  Claim C1 as stated fails. With two open trades, the price fetch of the first
  succeeding and that of the second throwing, the iteration ends after the two fetches
  with \<open>ok = false\<close> and the message of the thrown error; the view of the first trade is
  lost with it.
\<close>

theorem failed_price_fetch_counterexample:
  "getMarketPrice priceDownEnv ''btc-100k'' NO [] = Inr (Finite 120)
   \<and> fst (runOneIteration priceDownEnv freshState) = \<lparr>ok = False, message = ''price feed down''\<rparr>
   \<and> calls (snd (runOneIteration priceDownEnv freshState))
       = [HasSufficientBalance, FetchMarkets, GetBalance, GetOpenTrades,
          GetMarketPrice ''btc-100k'' NO, GetMarketPrice ''eth-5k'' YES]"
  by (simp add: priceDown_run) (simp add: priceDownEnv_def)

section \<open>The calls of the SELL branch\<close>

lemma exitFanout_calls:
  "\<exists>new. calls (exitFanout env params i s) = calls s @ new \<and> (\<forall>c\<in>set new. exitFanoutCall params c)"
  unfolding exitFanout_def tweetAndRecord_def castAndRecord_def recordPost_def tryCatch_def
    invoke_def Let_def bindE_def
  by (auto simp: exitFanoutCall_def split: sum.splits prod.splits)

lemma exitFanout_newCalls:
  assumes "c \<in> set (newCalls s0 (exitFanout env params i s))"
  shows "c \<in> set (newCalls s0 s) \<or> exitFanoutCall params c"
proof -
  obtain new where n: "calls (exitFanout env params i s) = calls s @ new"
    and p: "\<forall>c\<in>set new. exitFanoutCall params c"
    using exitFanout_calls by blast
  from assms have "c \<in> set (drop (length (calls s0)) (calls s)) \<or> c \<in> set new"
    unfolding newCalls_def n by (auto dest: in_set_dropD)
  with p show ?thesis by (auto simp: newCalls_def)
qed

lemma sell_unmatched:
  assumes "\<forall>openTrades t. getOpenTrades env (calls s) = Inr openTrades
             \<longrightarrow> find (\<lambda>t. market_id t = marketId d) openTrades \<noteq> Some t"
  shows "newCalls s (snd (sellDecision env d s)) = [GetOpenTrades]"
  using assms unfolding sellDecision_def invoke_def
  by (auto simp: bindE_def split: sum.splits option.splits)

lemma sell_calls:
  assumes "getOpenTrades env (calls s) = Inr openTrades"
      and "find (\<lambda>t. market_id t = marketId d) openTrades = Some t"
      and "c \<in> set (newCalls s (snd (sellDecision env d s)))"
  shows "c = GetOpenTrades \<or> c = GetMarketPrice (marketId d) (trade_position t)
     \<or> (\<exists>price. getMarketPrice env (marketId d) (trade_position t) (calls s @ [GetOpenTrades]) = Inr price
          \<and> (c = ClosePosition (market_name t) (trade_position t) (entry_price t) price
                    (sellAmountUsd env d t) (market_id t)
             \<or> (\<exists>r. closePosition env (market_name t) (trade_position t) (entry_price t) price
                       (sellAmountUsd env d t) (market_id t)
                       (calls s @ [GetOpenTrades, GetMarketPrice (marketId d) (trade_position t)]) = Inr r
                  \<and> (c = UpdateTrade (trade_id t)
                       \<lparr>exit_price = price, exit_tx_hash = close_txHash r,
                        exit_timestamp = close_timestamp r, patch_pnl_bps = pnlBps price (entry_price t)\<rparr>
                    \<or> exitFanoutCall
                       \<lparr>exit_marketName = market_name t, exit_position = trade_position t,
                        exit_entryPrice = entry_price t, exit_exitPrice = price,
                        exit_pnlBps = pnlBps price (entry_price t), exit_amountEth = literal (1 / 10),
                        exit_txHash = close_txHash r, exit_post_timestamp = close_timestamp r,
                        exit_exitReason = exitReason (config env) (pnlBps price (entry_price t))\<rparr> c))))"
  using assms unfolding sellDecision_def invoke_def Let_def
  by (auto simp: bindE_def split: sum.splits dest!: exitFanout_newCalls)

text \<open>The run of the sample SELL, call by call.\<close>

lemma sample_sell_calls:
  "newCalls freshState (snd (sellDecision sampleEnv sampleSell freshState)) =
     [GetOpenTrades, GetMarketPrice ''btc-100k'' NO,
      ClosePosition ''BTC above 100k'' NO (Finite 100) (Finite 120) (Finite 750) ''btc-100k'',
      UpdateTrade 7 \<lparr>exit_price = Finite 120, exit_tx_hash = ''0xsell'', exit_timestamp = 3000,
                     patch_pnl_bps = Finite 2000\<rparr>,
      GenerateTradeExitPostForPlatform
        \<lparr>exit_marketName = ''BTC above 100k'', exit_position = NO, exit_entryPrice = Finite 100,
         exit_exitPrice = Finite 120, exit_pnlBps = Finite 2000, exit_amountEth = literal (1 / 10),
         exit_txHash = ''0xsell'', exit_post_timestamp = 3000,
         exit_exitReason = ''Signal shifted; trimming risk.''\<rparr> TWITTER,
      PostTweetWithRateLimit ''exit'',
      RecordSocialPost \<lparr>platform = TWITTER, post_id = Some ''tweet-1'', content = ''exit'',
                        post_type = TRADE_EXIT, related_trade_id = Some 7,
                        post_timestamp = 90000000\<rparr>,
      GenerateTradeExitPostForPlatform
        \<lparr>exit_marketName = ''BTC above 100k'', exit_position = NO, exit_entryPrice = Finite 100,
         exit_exitPrice = Finite 120, exit_pnlBps = Finite 2000, exit_amountEth = literal (1 / 10),
         exit_txHash = ''0xsell'', exit_post_timestamp = 3000,
         exit_exitReason = ''Signal shifted; trimming risk.''\<rparr> FARCASTER,
      PostCastWithRateLimit ''exit'',
      RecordSocialPost \<lparr>platform = FARCASTER, post_id = Some ''0xcast'', content = ''exit'',
                        post_type = TRADE_EXIT, related_trade_id = Some 7,
                        post_timestamp = 90000000\<rparr>]"
  by (simp add: sellDecision_def invoke_def sampleEnv_def sampleSell_def sampleTrade_def
      freshState_def sellAmountUsd_def sampleConfig_def pnlBps_120_100 sample_products
      exitReason_def
      exitFanout_def tweetAndRecord_def castAndRecord_def recordPost_def tryCatch_def
      newCalls_def Let_def)

lemma sell_matched:
  assumes "c \<in> set (newCalls s (snd (sellDecision env d s)))" and "c \<noteq> GetOpenTrades"
  obtains openTrades t where "getOpenTrades env (calls s) = Inr openTrades"
    and "find (\<lambda>t. market_id t = marketId d) openTrades = Some t"
proof (cases "\<exists>openTrades t. getOpenTrades env (calls s) = Inr openTrades
                \<and> find (\<lambda>t. market_id t = marketId d) openTrades = Some t")
  case True
  then show ?thesis using that by blast
next
  case False
  then have "newCalls s (snd (sellDecision env d s)) = [GetOpenTrades]"
    by (intro sell_unmatched) blast
  with assms show ?thesis by simp
qed

section \<open>Closing a position\<close>

text \<open>
  Claim C2, as amended. Whenever the SELL branch updates a trade it updates the matched
  trade, the exit price written is the price that \<^verbatim>\<open>getMarketPrice\<close> returned, and the
  \<open>pnl_bps\<close> written is \<^verbatim>\<open>Math.round(((currentPrice - entry_price) / entry_price) * 10000)\<close>
  as the source evaluates it, in double arithmetic with its three roundings. For finite
  prices, the entry price between \<open>2^(-100)\<close> and \<open>2^100\<close> in magnitude and the price
  differing from it by at most \<open>2^20\<close> times the entry price, the value written is an integer
  within \<open>1/2 + 2^(-16)\<close> of the exact \<open>(exit_price - entry_price) / entry_price * 10000\<close>, and
  it is that quantity rounded unless the quantity lies within \<open>2^(-16)\<close> of a tie. When a
  price is NaN the value written is NaN. The position of the trade plays no part: nothing
  is inverted for NO. Entry 100 and price 120 give 2000, entry 100 and price 70 give -3000;
  entry 800 and price 939, where the quantity is the tie 1737.5, give 1737.
\<close>

theorem sell_persists_pnl_bps:
  assumes "getOpenTrades env (calls s) = Inr openTrades"
      and "find (\<lambda>t. market_id t = marketId d) openTrades = Some t"
      and "UpdateTrade i patch \<in> set (newCalls s (snd (sellDecision env d s)))"
  shows "i = trade_id t
       \<and> getMarketPrice env (marketId d) (trade_position t) (calls s @ [GetOpenTrades])
           = Inr (exit_price patch)
       \<and> patch_pnl_bps patch = pnlBps (exit_price patch) (entry_price t)
       \<and> (\<forall>c e. exit_price patch = Finite c \<and> entry_price t = Finite e
              \<and> 1 / 2 ^ 100 \<le> \<bar>e\<bar> \<and> \<bar>e\<bar> \<le> 2 ^ 100 \<and> \<bar>c - e\<bar> \<le> 2 ^ 20 * \<bar>e\<bar> \<longrightarrow>
            (\<exists>v. patch_pnl_bps patch = Finite (of_int v)
               \<and> \<bar>of_int v - (c - e) / e * 10000\<bar> \<le> 1 / 2 + 1 / 2 ^ 16
               \<and> (1 / 2 ^ 16 < \<bar>frac ((c - e) / e * 10000) - 1 / 2\<bar>
                    \<longrightarrow> v = round ((c - e) / e * 10000))))
       \<and> (exit_price patch = NaN \<or> entry_price t = NaN \<longrightarrow> patch_pnl_bps patch = NaN)
       \<and> pnlBps (Finite 120) (Finite 100) = Finite 2000
       \<and> pnlBps (Finite 70) (Finite 100) = Finite (- 3000)
       \<and> pnlBps (Finite 939) (Finite 800) = Finite 1737"
proof -
  from sell_calls [OF assms]
  have p: "i = trade_id t"
    "getMarketPrice env (marketId d) (trade_position t) (calls s @ [GetOpenTrades])
       = Inr (exit_price patch)"
    "patch_pnl_bps patch = pnlBps (exit_price patch) (entry_price t)"
    by (auto simp: exitFanoutCall_def)
  have q: "\<exists>v. patch_pnl_bps patch = Finite (of_int v)
               \<and> \<bar>of_int v - (c - e) / e * 10000\<bar> \<le> 1 / 2 + 1 / 2 ^ 16
               \<and> (1 / 2 ^ 16 < \<bar>frac ((c - e) / e * 10000) - 1 / 2\<bar>
                    \<longrightarrow> v = round ((c - e) / e * 10000))"
    if "exit_price patch = Finite c \<and> entry_price t = Finite e
          \<and> 1 / 2 ^ 100 \<le> \<bar>e\<bar> \<and> \<bar>e\<bar> \<le> 2 ^ 100 \<and> \<bar>c - e\<bar> \<le> 2 ^ 20 * \<bar>e\<bar>" for c e
  proof -
    from that have f: "exit_price patch = Finite c" "entry_price t = Finite e"
      and b: "1 / 2 ^ 100 \<le> \<bar>e\<bar>" "\<bar>e\<bar> \<le> 2 ^ 100" "\<bar>c - e\<bar> \<le> 2 ^ 20 * \<bar>e\<bar>"
      by simp_all
    from b obtain v where v: "pnlBps (Finite c) (Finite e) = Finite (of_int v)"
        "\<bar>of_int v - (c - e) / e * 10000\<bar> \<le> 1 / 2 + 1 / 2 ^ 16"
      by (rule pnlBps_error)
    have "v = round ((c - e) / e * 10000)"
      if "1 / 2 ^ 16 < \<bar>frac ((c - e) / e * 10000) - 1 / 2\<bar>"
      using v(2) that by (rule round_of_near) simp
    with v p(3) f show ?thesis by auto
  qed
  have n: "patch_pnl_bps patch = NaN" if "exit_price patch = NaN \<or> entry_price t = NaN"
    using that p(3) by auto
  from p q n pnlBps_120_100 pnlBps_70_100 pnlBps_939_800 show ?thesis by blast
qed

theorem sell_persists_pnl_bps_witness:
  "getOpenTrades sampleEnv (calls freshState) = Inr [sampleTrade]
   \<and> find (\<lambda>t. market_id t = marketId sampleSell) [sampleTrade] = Some sampleTrade
   \<and> entry_price sampleTrade = Finite 100 \<and> trade_position sampleTrade = NO
   \<and> UpdateTrade 7 \<lparr>exit_price = Finite 120, exit_tx_hash = ''0xsell'', exit_timestamp = 3000,
                     patch_pnl_bps = Finite 2000\<rparr>
       \<in> set (newCalls freshState (snd (sellDecision sampleEnv sampleSell freshState)))
   \<and> 1 / 2 ^ 100 \<le> \<bar>100 :: rat\<bar> \<and> \<bar>100 :: rat\<bar> \<le> 2 ^ 100
   \<and> \<bar>120 - 100 :: rat\<bar> \<le> 2 ^ 20 * \<bar>100\<bar>
   \<and> 1 / 2 ^ 16 < \<bar>frac ((120 - 100) / 100 * 10000 :: rat) - 1 / 2\<bar>
   \<and> round ((120 - 100) / 100 * 10000 :: rat) = 2000"
proof -
  let ?patch = "\<lparr>exit_price = Finite 120, exit_tx_hash = ''0xsell'', exit_timestamp = 3000,
                 patch_pnl_bps = Finite 2000\<rparr>"
  have a: "getOpenTrades sampleEnv (calls freshState) = Inr [sampleTrade]"
    by (simp add: sampleEnv_def)
  have b: "find (\<lambda>t. market_id t = marketId sampleSell) [sampleTrade] = Some sampleTrade"
    by (simp add: sampleSell_def sampleTrade_def)
  have d: "UpdateTrade 7 ?patch
       \<in> set (newCalls freshState (snd (sellDecision sampleEnv sampleSell freshState)))"
    by (simp add: sample_sell_calls)
  have e: "entry_price sampleTrade = Finite 100" "trade_position sampleTrade = NO"
    by (simp_all add: sampleTrade_def)
  have r: "1 / 2 ^ 100 \<le> \<bar>100 :: rat\<bar>" "\<bar>100 :: rat\<bar> \<le> 2 ^ 100"
    "\<bar>120 - 100 :: rat\<bar> \<le> 2 ^ 20 * \<bar>100\<bar>"
    by simp_all
  have t: "1 / 2 ^ 16 < \<bar>frac ((120 - 100) / 100 * 10000 :: rat) - 1 / 2\<bar>"
    by (simp add: frac_def)
  have h: "exit_price ?patch = Finite 120 \<and> entry_price sampleTrade = Finite 100
      \<and> 1 / 2 ^ 100 \<le> \<bar>100 :: rat\<bar> \<and> \<bar>100 :: rat\<bar> \<le> 2 ^ 100
      \<and> \<bar>120 - 100 :: rat\<bar> \<le> 2 ^ 20 * \<bar>100\<bar>"
    using e(1) r by simp
  from sell_persists_pnl_bps [OF a b d, THEN conjunct2, THEN conjunct2, THEN conjunct2,
      THEN conjunct1, rule_format, OF h]
  obtain v where v: "patch_pnl_bps ?patch = Finite (of_int v)"
    "1 / 2 ^ 16 < \<bar>frac ((120 - 100) / 100 * 10000 :: rat) - 1 / 2\<bar>
       \<longrightarrow> v = round ((120 - 100) / 100 * 10000 :: rat)"
    by blast
  from v(1) have "(of_int v :: rat) = 2000" by simp
  then have "v = 2000" by simp
  with v(2) t have f: "round ((120 - 100) / 100 * 10000 :: rat) = 2000" by simp
  show ?thesis
    by (intro conjI) (fact a b d e r t f)+
qed

text \<open>The run of the SELL when the trade was entered at 800 and the price is 939.\<close>

lemma tie_sell_update:
  "UpdateTrade 7 \<lparr>exit_price = Finite 939, exit_tx_hash = ''0xsell'', exit_timestamp = 3000,
                   patch_pnl_bps = Finite 1737\<rparr>
     \<in> set (newCalls freshState (snd (sellDecision tieEnv sampleSell freshState)))"
  by (simp add: sellDecision_def invoke_def tieEnv_def sampleEnv_def sampleSell_def
      sampleTrade_def freshState_def sellAmountUsd_def sampleConfig_def pnlBps_939_800
      sample_products exitReason_def exitFanout_def tweetAndRecord_def castAndRecord_def
      recordPost_def tryCatch_def newCalls_def Let_def)

lemma nan_sell_update:
  "UpdateTrade 7 \<lparr>exit_price = NaN, exit_tx_hash = ''0xsell'', exit_timestamp = 3000,
                   patch_pnl_bps = NaN\<rparr>
     \<in> set (newCalls freshState (snd (sellDecision nanPriceEnv sampleSell freshState)))"
  by (simp add: sellDecision_def invoke_def nanPriceEnv_def sampleEnv_def sampleSell_def
      sampleTrade_def freshState_def sellAmountUsd_def sampleConfig_def
      sample_products exitReason_def exitFanout_def tweetAndRecord_def castAndRecord_def
      recordPost_def tryCatch_def newCalls_def Let_def)

text \<open>
  Claim C2 as stated fails. The trade entered at 800 and closed at 939 is written with
  \<open>pnl_bps\<close> 1737, where \<open>(939 - 800) / 800 * 10000\<close> is 1737.5 and rounds to 1738. When the
  price fetch resolves to NaN, the entry price being 100, the \<open>pnl_bps\<close> written is NaN,
  which is no integer. And the expression that the SELL branch evaluates differs from the
  quantity rounded away from a tie as well: for the doubles of 0.51 and 0.32 it is 5938,
  where the quantity lies below 5937.5 and rounds to 5937.
\<close>

theorem sell_pnl_bps_counterexample:
  "getOpenTrades tieEnv (calls freshState) = Inr [sampleTrade\<lparr>entry_price := Finite 800\<rparr>]
   \<and> getMarketPrice tieEnv ''btc-100k'' NO [GetOpenTrades] = Inr (Finite 939)
   \<and> UpdateTrade 7 \<lparr>exit_price = Finite 939, exit_tx_hash = ''0xsell'', exit_timestamp = 3000,
                     patch_pnl_bps = Finite 1737\<rparr>
       \<in> set (newCalls freshState (snd (sellDecision tieEnv sampleSell freshState)))
   \<and> round ((939 - 800) / 800 * 10000 :: rat) = 1738
   \<and> entry_price sampleTrade = Finite 100
   \<and> getMarketPrice nanPriceEnv ''btc-100k'' NO [GetOpenTrades] = Inr NaN
   \<and> UpdateTrade 7 \<lparr>exit_price = NaN, exit_tx_hash = ''0xsell'', exit_timestamp = 3000,
                     patch_pnl_bps = NaN\<rparr>
       \<in> set (newCalls freshState (snd (sellDecision nanPriceEnv sampleSell freshState)))
   \<and> pnlBps (Finite (literal (51 / 100))) (Finite (literal (32 / 100))) = Finite 5938
   \<and> (literal (51 / 100) - literal (32 / 100)) / literal (32 / 100) * 10000 < 5937 + 1 / 2
   \<and> round ((literal (51 / 100) - literal (32 / 100)) / literal (32 / 100) * 10000) = 5937"
proof -
  have "getOpenTrades tieEnv (calls freshState) = Inr [sampleTrade\<lparr>entry_price := Finite 800\<rparr>]"
    "getMarketPrice tieEnv ''btc-100k'' NO [GetOpenTrades] = Inr (Finite 939)"
    "entry_price sampleTrade = Finite 100"
    "getMarketPrice nanPriceEnv ''btc-100k'' NO [GetOpenTrades] = Inr NaN"
    by (simp_all add: tieEnv_def nanPriceEnv_def sampleEnv_def sampleTrade_def)
  with tie_sell_update nan_sell_update round_939_800 pnlBps_decimal exact_decimal
  show ?thesis
    by (intro conjI)
qed

text \<open>
  Claim C4. The exit reason handed to the exit post templates is classified from the
  \<open>pnl_bps\<close> of the closed trade: at or below minus the stop-loss threshold it is the
  stop-loss reason, otherwise at or above the take-profit threshold the take-profit
  reason, otherwise the signal-shift reason. With thresholds 1500 and 3000, -1600 is
  stop-loss, 3200 is take-profit and 500 is signal-shift.
\<close>

theorem sell_exit_reason:
  assumes "GenerateTradeExitPostForPlatform p pf \<in> set (newCalls s (snd (sellDecision env d s)))"
  shows "exit_exitReason p =
           (if js_le (exit_pnlBps p) (- stopLossBps (config env)) then ''Stop-loss risk control hit.''
            else if js_ge (exit_pnlBps p) (takeProfitBps (config env))
              then ''Take-profit rule triggered.''
            else ''Signal shifted; trimming risk.'')
       \<and> exit_pnlBps p = pnlBps (exit_exitPrice p) (exit_entryPrice p)
       \<and> exitReason sampleConfig (Finite (- 1600)) = ''Stop-loss risk control hit.''
       \<and> exitReason sampleConfig (Finite 3200) = ''Take-profit rule triggered.''
       \<and> exitReason sampleConfig (Finite 500) = ''Signal shifted; trimming risk.''"
proof -
  from assms obtain openTrades t where m: "getOpenTrades env (calls s) = Inr openTrades"
      "find (\<lambda>t. market_id t = marketId d) openTrades = Some t"
    by (rule sell_matched) simp
  from sell_calls [OF m assms] show ?thesis
    by (auto simp: exitFanoutCall_def exitReason_def sampleConfig_def)
qed

theorem sell_exit_reason_witness:
  "GenerateTradeExitPostForPlatform
     \<lparr>exit_marketName = ''BTC above 100k'', exit_position = NO, exit_entryPrice = Finite 100,
      exit_exitPrice = Finite 120, exit_pnlBps = Finite 2000, exit_amountEth = literal (1 / 10),
      exit_txHash = ''0xsell'', exit_post_timestamp = 3000,
      exit_exitReason = ''Signal shifted; trimming risk.''\<rparr> TWITTER
     \<in> set (newCalls freshState (snd (sellDecision sampleEnv sampleSell freshState)))
   \<and> stopLossBps (config sampleEnv) = 1500 \<and> takeProfitBps (config sampleEnv) = 3000
   \<and> \<not> js_le (Finite 2000) (- 1500) \<and> \<not> js_ge (Finite 2000) 3000"
proof -
  have a: "GenerateTradeExitPostForPlatform
     \<lparr>exit_marketName = ''BTC above 100k'', exit_position = NO, exit_entryPrice = Finite 100,
      exit_exitPrice = Finite 120, exit_pnlBps = Finite 2000, exit_amountEth = literal (1 / 10),
      exit_txHash = ''0xsell'', exit_post_timestamp = 3000,
      exit_exitReason = ''Signal shifted; trimming risk.''\<rparr> TWITTER
     \<in> set (newCalls freshState (snd (sellDecision sampleEnv sampleSell freshState)))"
    by (simp add: sample_sell_calls)
  have b: "stopLossBps (config sampleEnv) = 1500" "takeProfitBps (config sampleEnv) = 3000"
    by (simp_all add: sampleEnv_def sampleConfig_def)
  have c: "\<not> js_le (Finite 2000) (- 1500)" "\<not> js_ge (Finite 2000) 3000"
    by simp_all
  from sell_exit_reason [OF a] a b c show ?thesis
    by blast
qed

text \<open>
  Claim C10. Every exit post of a SELL is generated with the amount 0.1 (the double of
  that literal), whatever the closed trade holds in \<open>amount_eth\<close>; the update written to
  the trade consists of exit price, transaction hash, timestamp and \<open>pnl_bps\<close> and
  carries no amount.
\<close>

theorem sell_exit_post_amount:
  assumes "GenerateTradeExitPostForPlatform p pf \<in> set (newCalls s (snd (sellDecision env d s)))"
  shows "exit_amountEth p = literal (1 / 10)
       \<and> literal (1 / 10) = 3602879701896397 / 36028797018963968
       \<and> (\<forall>i patch. UpdateTrade i patch \<in> set (newCalls s (snd (sellDecision env d s)))
            \<longrightarrow> patch = \<lparr>exit_price = exit_exitPrice p, exit_tx_hash = exit_txHash p,
                         exit_timestamp = exit_post_timestamp p, patch_pnl_bps = exit_pnlBps p\<rparr>)"
proof -
  from assms obtain openTrades t where m: "getOpenTrades env (calls s) = Inr openTrades"
      "find (\<lambda>t. market_id t = marketId d) openTrades = Some t"
    by (rule sell_matched) simp
  from sell_calls [OF m assms] have p: "exit_amountEth p = literal (1 / 10)"
    by (auto simp: exitFanoutCall_def)
  have "patch = \<lparr>exit_price = exit_exitPrice p, exit_tx_hash = exit_txHash p,
                 exit_timestamp = exit_post_timestamp p, patch_pnl_bps = exit_pnlBps p\<rparr>"
    if u: "UpdateTrade i patch \<in> set (newCalls s (snd (sellDecision env d s)))" for i patch
    using sell_calls [OF m assms] sell_calls [OF m u]
    by (auto simp: exitFanoutCall_def)
  with p literal_tenth show ?thesis by blast
qed

theorem sell_exit_post_amount_witness:
  "amount_eth sampleTrade = Value (1 / 4)
   \<and> GenerateTradeExitPostForPlatform
       \<lparr>exit_marketName = ''BTC above 100k'', exit_position = NO, exit_entryPrice = Finite 100,
        exit_exitPrice = Finite 120, exit_pnlBps = Finite 2000, exit_amountEth = literal (1 / 10),
        exit_txHash = ''0xsell'', exit_post_timestamp = 3000,
        exit_exitReason = ''Signal shifted; trimming risk.''\<rparr> FARCASTER
       \<in> set (newCalls freshState (snd (sellDecision sampleEnv sampleSell freshState)))
   \<and> UpdateTrade 7 \<lparr>exit_price = Finite 120, exit_tx_hash = ''0xsell'', exit_timestamp = 3000,
                     patch_pnl_bps = Finite 2000\<rparr>
       \<in> set (newCalls freshState (snd (sellDecision sampleEnv sampleSell freshState)))"
proof -
  have a: "GenerateTradeExitPostForPlatform
       \<lparr>exit_marketName = ''BTC above 100k'', exit_position = NO, exit_entryPrice = Finite 100,
        exit_exitPrice = Finite 120, exit_pnlBps = Finite 2000, exit_amountEth = literal (1 / 10),
        exit_txHash = ''0xsell'', exit_post_timestamp = 3000,
        exit_exitReason = ''Signal shifted; trimming risk.''\<rparr> FARCASTER
       \<in> set (newCalls freshState (snd (sellDecision sampleEnv sampleSell freshState)))"
    by (simp add: sample_sell_calls)
  have b: "amount_eth sampleTrade = Value (1 / 4)"
    by (simp add: sampleTrade_def)
  from sell_exit_post_amount [OF a] a b show ?thesis
    by (simp add: sample_sell_calls)
qed

section \<open>The entry fan-out\<close>

text \<open>
  Claim C8, at a BUY for which both clients resolve to null instead of a post id. The
  Twitter block tests the id and records nothing; the Farcaster block has no such test and
  records a post whose id is null.
\<close>

theorem entry_fanout_records_null_cast:
  "postTweetWithRateLimit nullPostsEnv ''entry'' [] = Inr None
   \<and> postCastWithRateLimit nullPostsEnv ''entry'' [] = Inr None
   \<and> newCalls freshState (snd (buyDecision nullPostsEnv Map.empty sampleBuy freshState)) =
     [ExecuteTrade ''btc-100k'' ''BTC above 100k'' NO (1 / 16) (Finite 5000),
      CreateTrade \<lparr>new_market_id = ''btc-100k'', new_market_name = ''BTC above 100k'',
                   new_position = NO, new_amount_eth = 1 / 16,
                   new_amount_usd = Finite (375 / 2),
                   new_entry_price = Finite 5000, new_entry_tx_hash = ''0xbuy'',
                   new_entry_timestamp = 2000\<rparr>,
      GenerateTradeEntryPostForPlatform
        \<lparr>entry_marketName = ''BTC above 100k'', entry_position = NO, entry_amountEth = 1 / 16,
         entry_price_paid = Finite 5000, entry_txHash = ''0xbuy'', entry_reasoning = ''momentum'',
         entry_confidence = 3 / 4, entry_post_timestamp = 2000\<rparr> TWITTER,
      PostTweetWithRateLimit ''entry'',
      GenerateTradeEntryPostForPlatform
        \<lparr>entry_marketName = ''BTC above 100k'', entry_position = NO, entry_amountEth = 1 / 16,
         entry_price_paid = Finite 5000, entry_txHash = ''0xbuy'', entry_reasoning = ''momentum'',
         entry_confidence = 3 / 4, entry_post_timestamp = 2000\<rparr> FARCASTER,
      PostCastWithRateLimit ''entry'',
      RecordSocialPost \<lparr>platform = FARCASTER, post_id = None, content = ''entry'',
                        post_type = TRADE_ENTRY, related_trade_id = Some 7,
                        post_timestamp = 90000000\<rparr>]"
  by (simp add: buyDecision_def entryFanout_def tweetAndRecord_def castAndRecord_def
      recordPost_def tryCatch_def invoke_def nullPostsEnv_def sampleEnv_def sampleConfig_def
      sampleBuy_def sampleTrade_def freshState_def newCalls_def Let_def sample_products)

section \<open>Mention dedup\<close>

lemma recordedIn_append [simp]:
  "recordedIn pf (rows @ [r]) = recordedIn pf rows \<union> (if row_platform r = pf then {mention_id r} else {})"
  by (auto simp: recordedIn_def)

lemma recordedIn_Nil [simp]: "recordedIn pf [] = {}"
  by (simp add: recordedIn_def)

lemma recordedIn_Cons [simp]:
  "recordedIn pf (r # rows) = (if row_platform r = pf then {mention_id r} else {}) \<union> recordedIn pf rows"
  by (auto simp: recordedIn_def)

lemma recordedIn_mark [simp]:
  "recordedIn pf (map (\<lambda>r. if row_id r = i then r\<lparr>replied := True, reply_id := Some x\<rparr> else r) rows)
     = recordedIn pf rows"
  by (induction rows) simp_all

lemma list_ex_recordedIn:
  "list_ex (\<lambda>m. mention_id m = i \<and> row_platform m = pf) rows \<longleftrightarrow> i \<in> recordedIn pf rows"
  by (auto simp: recordedIn_def list_ex_iff)

lemma twitter_step:
  fixes env m s
  defines "s' \<equiv> processTwitterMention env m s"
  shows "\<exists>new. calls s' = calls s @ new
     \<and> length (filter isGenerateReply new) \<le> 1
     \<and> (\<forall>i. length (filter (isReplyToTweet i) new) \<le> (if i = tw_id m then 1 else 0))
     \<and> (\<forall>i. filter (isReplyToCast i) new = [])
     \<and> (tw_id m \<in> recordedIn TWITTER (mentions s)
          \<longrightarrow> filter isGenerateReply new = [] \<and> filter (isReplyToTweet (tw_id m)) new = [])
     \<and> (filter isGenerateReply new \<noteq> [] \<or> filter (isReplyToTweet (tw_id m)) new \<noteq> []
          \<longrightarrow> tw_id m \<in> recordedIn TWITTER (mentions s'))
     \<and> (\<forall>pf. recordedIn pf (mentions s) \<subseteq> recordedIn pf (mentions s'))"
  unfolding s'_def processTwitterMention_def getUnprocessedMentions_def recordMention_def
    markMentionReplied_def recordPost_def invoke_def tryCatch_def Let_def
  by (auto simp: bindE_def list_ex_recordedIn split: sum.splits option.splits)

lemma farcaster_step:
  fixes env m s
  defines "s' \<equiv> processFarcasterMention env m s"
  shows "\<exists>new. calls s' = calls s @ new
     \<and> length (filter isGenerateReply new) \<le> 1
     \<and> (\<forall>i. length (filter (isReplyToCast i) new) \<le> (if i = fc_hash m then 1 else 0))
     \<and> (\<forall>i. filter (isReplyToTweet i) new = [])
     \<and> (fc_hash m \<in> recordedIn FARCASTER (mentions s)
          \<longrightarrow> filter isGenerateReply new = [] \<and> filter (isReplyToCast (fc_hash m)) new = [])
     \<and> (filter isGenerateReply new \<noteq> [] \<or> filter (isReplyToCast (fc_hash m)) new \<noteq> []
          \<longrightarrow> fc_hash m \<in> recordedIn FARCASTER (mentions s'))
     \<and> (\<forall>pf. recordedIn pf (mentions s) \<subseteq> recordedIn pf (mentions s'))"
  unfolding s'_def processFarcasterMention_def getUnprocessedMentions_def recordMention_def
    markMentionReplied_def recordPost_def invoke_def tryCatch_def Let_def
  by (auto simp: bindE_def list_ex_recordedIn split: sum.splits option.splits)

text \<open>The arithmetic of the two inductions, on an abstract step.\<close>

lemma count_step:
  fixes A B :: "string set"
  assumes "finite A" and "B \<subseteq> A" and "g1 \<le> (1::nat)"
      and "g1 \<noteq> 0 \<Longrightarrow> x \<in> A \<and> x \<notin> B"
      and "g2 \<le> card B"
  shows "g1 + g2 \<le> card A"
proof (cases "g1 = 0")
  case True
  with assms(1,2,5) show ?thesis
    using card_mono [of A B] by simp
next
  case False
  with assms(4) have x: "x \<in> A" "x \<notin> B" by simp_all
  with assms(2) have "B \<subseteq> A - {x}" by blast
  with assms(1) have "card B \<le> card (A - {x})" by (intro card_mono) simp_all
  also have "\<dots> = card A - 1" using assms(1) x(1) by simp
  finally have "card B \<le> card A - 1" .
  moreover have "1 \<le> card A" using assms(1) x(1) by (metis One_nat_def Suc_leI card_gt_0_iff empty_iff)
  ultimately show ?thesis using assms(3,5) by linarith
qed

lemma forEachTwitterMention_foldl:
  "forEachTwitterMention env ms s = foldl (\<lambda>s m. processTwitterMention env m s) s ms"
  by (induction ms arbitrary: s) simp_all

lemma forEachFarcasterMention_foldl:
  "forEachFarcasterMention env ms s = foldl (\<lambda>s m. processFarcasterMention env m s) s ms"
  by (induction ms arbitrary: s) simp_all

text \<open>
  The induction over a stream, for any loop body that behaves as the two bodies do: a
  mention already recorded prompts no reply, and a mention that prompts one is recorded.
\<close>

lemma dedup_loop:
  fixes body :: "'a \<Rightarrow> state \<Rightarrow> state" and key :: "'a \<Rightarrow> string"
    and isReply isOther :: "string \<Rightarrow> call \<Rightarrow> bool"
  assumes body: "\<And>m s. \<exists>new. calls (body m s) = calls s @ new
     \<and> length (filter isGenerateReply new) \<le> 1
     \<and> (\<forall>i. length (filter (isReply i) new) \<le> (if i = key m then 1 else 0))
     \<and> (\<forall>i. filter (isOther i) new = [])
     \<and> (key m \<in> recordedIn pf (mentions s)
          \<longrightarrow> filter isGenerateReply new = [] \<and> filter (isReply (key m)) new = [])
     \<and> (filter isGenerateReply new \<noteq> [] \<or> filter (isReply (key m)) new \<noteq> []
          \<longrightarrow> key m \<in> recordedIn pf (mentions (body m s)))
     \<and> (\<forall>pf'. recordedIn pf' (mentions s) \<subseteq> recordedIn pf' (mentions (body m s)))"
  shows "\<exists>new. calls (foldl (\<lambda>s m. body m s) s ms) = calls s @ new
     \<and> length (filter isGenerateReply new) \<le> card (key ` set ms - recordedIn pf (mentions s))
     \<and> (\<forall>i. length (filter (isReply i) new) \<le> (if i \<in> recordedIn pf (mentions s) then 0 else 1))
     \<and> (\<forall>i. filter (isOther i) new = [])
     \<and> (\<forall>pf'. recordedIn pf' (mentions s)
              \<subseteq> recordedIn pf' (mentions (foldl (\<lambda>s m. body m s) s ms)))"
proof (induction ms arbitrary: s)
  case Nil
  show ?case by simp
next
  case (Cons m ms)
  define s1 where "s1 = body m s"
  define s2 where "s2 = foldl (\<lambda>s m. body m s) s1 ms"
  define R where "R = recordedIn pf (mentions s)"
  define R1 where "R1 = recordedIn pf (mentions s1)"
  obtain new1 where c1: "calls s1 = calls s @ new1"
    and g1: "length (filter isGenerateReply new1) \<le> 1"
    and r1: "\<forall>i. length (filter (isReply i) new1) \<le> (if i = key m then 1 else 0)"
    and k1: "\<forall>i. filter (isOther i) new1 = []"
    and seen: "key m \<in> R
          \<longrightarrow> filter isGenerateReply new1 = [] \<and> filter (isReply (key m)) new1 = []"
    and rec: "filter isGenerateReply new1 \<noteq> [] \<or> filter (isReply (key m)) new1 \<noteq> []
          \<longrightarrow> key m \<in> R1"
    and mono1: "\<forall>pf'. recordedIn pf' (mentions s) \<subseteq> recordedIn pf' (mentions s1)"
    unfolding s1_def R_def R1_def using body [of m s] by blast
  obtain new2 where c2: "calls s2 = calls s1 @ new2"
    and g2: "length (filter isGenerateReply new2) \<le> card (key ` set ms - R1)"
    and r2: "\<forall>i. length (filter (isReply i) new2) \<le> (if i \<in> R1 then 0 else 1)"
    and k2: "\<forall>i. filter (isOther i) new2 = []"
    and mono2: "\<forall>pf'. recordedIn pf' (mentions s1) \<subseteq> recordedIn pf' (mentions s2)"
    unfolding R1_def s2_def using Cons.IH [of s1] by blast
  have sub: "R \<subseteq> R1" using mono1 by (simp add: R_def R1_def)
  have run: "foldl (\<lambda>s m. body m s) s (m # ms) = s2"
    by (simp add: s1_def s2_def)
  have calls: "calls s2 = calls s @ (new1 @ new2)"
    by (simp add: c1 c2)
  have gen: "length (filter isGenerateReply (new1 @ new2)) \<le> card (key ` set (m # ms) - R)"
  proof -
    have "length (filter isGenerateReply new1) + length (filter isGenerateReply new2)
            \<le> card (key ` set (m # ms) - R)"
    proof (rule count_step [where x = "key m" and B = "key ` set ms - R1"])
      show "finite (key ` set (m # ms) - R)" by simp
      show "key ` set ms - R1 \<subseteq> key ` set (m # ms) - R" using sub by auto
      show "length (filter isGenerateReply new1) \<le> 1" by (rule g1)
      show "key m \<in> key ` set (m # ms) - R \<and> key m \<notin> key ` set ms - R1"
        if "length (filter isGenerateReply new1) \<noteq> 0"
        using that seen rec by auto
      show "length (filter isGenerateReply new2) \<le> card (key ` set ms - R1)" by (rule g2)
    qed
    then show ?thesis by simp
  qed
  have rep: "length (filter (isReply i) (new1 @ new2)) \<le> (if i \<in> R then 0 else 1)" for i
  proof (cases "filter (isReply i) new1 = []")
    case True
    with r2 [rule_format, of i] sub show ?thesis by (auto split: if_splits)
  next
    case False
    with r1 [rule_format, of i] have i: "i = key m"
      by (auto split: if_splits)
    with False seen rec have "i \<notin> R" "i \<in> R1" by auto
    with r1 [rule_format, of i] r2 [rule_format, of i] show ?thesis by (simp split: if_splits)
  qed
  have mono: "recordedIn pf' (mentions s) \<subseteq> recordedIn pf' (mentions s2)" for pf'
    using mono1 mono2 by blast
  show ?case
    unfolding run R_def [symmetric]
    using calls gen rep k1 k2 mono by (intro exI [of _ "new1 @ new2"]) simp
qed

lemma twitter_loop:
  "\<exists>new. calls (forEachTwitterMention env ms s) = calls s @ new
     \<and> length (filter isGenerateReply new) \<le> card (tw_id ` set ms - recordedIn TWITTER (mentions s))
     \<and> (\<forall>i. length (filter (isReplyToTweet i) new)
              \<le> (if i \<in> recordedIn TWITTER (mentions s) then 0 else 1))
     \<and> (\<forall>i. filter (isReplyToCast i) new = [])
     \<and> (\<forall>pf'. recordedIn pf' (mentions s)
              \<subseteq> recordedIn pf' (mentions (forEachTwitterMention env ms s)))"
  unfolding forEachTwitterMention_foldl
  by (rule dedup_loop) (rule twitter_step)

lemma farcaster_loop:
  "\<exists>new. calls (forEachFarcasterMention env ms s) = calls s @ new
     \<and> length (filter isGenerateReply new)
          \<le> card (fc_hash ` set ms - recordedIn FARCASTER (mentions s))
     \<and> (\<forall>i. length (filter (isReplyToCast i) new)
              \<le> (if i \<in> recordedIn FARCASTER (mentions s) then 0 else 1))
     \<and> (\<forall>i. filter (isReplyToTweet i) new = [])
     \<and> (\<forall>pf'. recordedIn pf' (mentions s)
              \<subseteq> recordedIn pf' (mentions (forEachFarcasterMention env ms s)))"
  unfolding forEachFarcasterMention_foldl
  by (rule dedup_loop) (rule farcaster_step)

lemma processMentions_calls:
  "\<exists>new. calls (processMentions env s) = calls s @ new
     \<and> (\<forall>i. length (filter (isReplyToTweet i) new) \<le> 1)
     \<and> (\<forall>i. length (filter (isReplyToCast i) new) \<le> 1)"
proof (cases "disableMentions (config env)")
  case True
  then show ?thesis by (simp add: processMentions_def)
next
  case False
  show ?thesis
  proof (cases "fetchTwitterMentions env (calls s)")
    case (Inl e)
    with False show ?thesis
      by (simp add: processMentions_def invoke_def tryCatch_def)
  next
    case (Inr tws)
    define s1 where "s1 = s\<lparr>calls := calls s @ [FetchTwitterMentions]\<rparr>"
    define s2 where "s2 = forEachTwitterMention env tws s1"
    obtain newT where t: "calls s2 = calls s1 @ newT"
      "\<forall>i. length (filter (isReplyToTweet i) newT)
              \<le> (if i \<in> recordedIn TWITTER (mentions s1) then 0 else 1)"
      "\<forall>i. filter (isReplyToCast i) newT = []"
      unfolding s2_def using twitter_loop [of env tws s1] by blast
    have tw: "length (filter (isReplyToTweet i) newT) \<le> 1" for i
      using t(2) [rule_format, of i] by (simp split: if_splits)
    define s3 where "s3 = s2\<lparr>calls := calls s2 @ [FetchFarcasterMentions]\<rparr>"
    show ?thesis
    proof (cases "fetchFarcasterMentions env (calls s2)")
      case (Inl e)
      with False Inr have "processMentions env s = s3"
        by (simp add: processMentions_def invoke_def tryCatch_def s1_def s2_def s3_def)
      moreover have "calls s3 = calls s @ ([FetchTwitterMentions] @ newT @ [FetchFarcasterMentions])"
        by (simp add: s3_def t(1) s1_def)
      ultimately show ?thesis
        using tw t(3) by (intro exI [of _ "[FetchTwitterMentions] @ newT @ [FetchFarcasterMentions]"])
          simp
    next
      case fcs: (Inr fcs)
      obtain newF where f: "calls (forEachFarcasterMention env fcs s3) = calls s3 @ newF"
        "\<forall>i. length (filter (isReplyToCast i) newF)
              \<le> (if i \<in> recordedIn FARCASTER (mentions s3) then 0 else 1)"
        "\<forall>i. filter (isReplyToTweet i) newF = []"
        using farcaster_loop [of env fcs s3] by blast
      have fc: "length (filter (isReplyToCast i) newF) \<le> 1" for i
        using f(2) [rule_format, of i] by (simp split: if_splits)
      from False Inr fcs have "processMentions env s = forEachFarcasterMention env fcs s3"
        by (simp add: processMentions_def invoke_def tryCatch_def s1_def s2_def s3_def)
      moreover have "calls s3 = calls s @ ([FetchTwitterMentions] @ newT @ [FetchFarcasterMentions])"
        by (simp add: s3_def t(1) s1_def)
      then have "calls (forEachFarcasterMention env fcs s3)
          = calls s @ ([FetchTwitterMentions] @ newT @ [FetchFarcasterMentions] @ newF)"
        by (simp add: f(1))
      ultimately show ?thesis
        using tw t(3) fc f(3)
        by (intro exI [of _ "[FetchTwitterMentions] @ newT @ [FetchFarcasterMentions] @ newF"])
          simp
    qed
  qed
qed

text \<open>
  Claim C7. In one run of \<^verbatim>\<open>processMentions\<close> there is at most one reply call for each
  tweet id and at most one for each cast hash. Each of the two loops calls
  \<^verbatim>\<open>generateReply\<close> at most once for each distinct mention id of its stream that the
  table did not hold before: a second occurrence is found in the table and prompts
  nothing.
\<close>

theorem mention_dedup:
  "(\<forall>i. length (filter (isReplyToTweet i) (newCalls s (processMentions env s))) \<le> 1)
   \<and> (\<forall>i. length (filter (isReplyToCast i) (newCalls s (processMentions env s))) \<le> 1)
   \<and> length (filter isGenerateReply (newCalls s (forEachTwitterMention env tws s)))
       \<le> card (tw_id ` set tws - recordedIn TWITTER (mentions s))
   \<and> length (filter isGenerateReply (newCalls s (forEachFarcasterMention env fcs s)))
       \<le> card (fc_hash ` set fcs - recordedIn FARCASTER (mentions s))"
proof -
  obtain new where "calls (processMentions env s) = calls s @ new"
    "\<forall>i. length (filter (isReplyToTweet i) new) \<le> 1"
    "\<forall>i. length (filter (isReplyToCast i) new) \<le> 1"
    using processMentions_calls by blast
  moreover
  obtain newT where "calls (forEachTwitterMention env tws s) = calls s @ newT"
    "length (filter isGenerateReply newT) \<le> card (tw_id ` set tws - recordedIn TWITTER (mentions s))"
    using twitter_loop [of env tws s] by blast
  moreover
  obtain newF where "calls (forEachFarcasterMention env fcs s) = calls s @ newF"
    "length (filter isGenerateReply newF)
       \<le> card (fc_hash ` set fcs - recordedIn FARCASTER (mentions s))"
    using farcaster_loop [of env fcs s] by blast
  ultimately show ?thesis
    by (simp add: newCalls_extension)
qed

text \<open>
  The run over a stream that delivers the same tweet twice, call by call.
\<close>

lemma repeated_mention_calls:
  "newCalls freshState (processMentions repeatedMentionEnv freshState) =
     [FetchTwitterMentions,
      GetUnprocessedMentions,
      RecordMention \<lparr>in_platform = TWITTER, in_mention_id = ''1801'', in_author = ''alice'',
                     in_content = ''gm crab'', in_replied = False, in_timestamp = 500\<rparr>,
      GenerateReply ''gm crab'',
      ReplyToTweet ''1801'' ''gm'',
      GetUnprocessedMentions,
      MarkMentionReplied 0 ''reply-1'',
      RecordSocialPost \<lparr>platform = TWITTER, post_id = Some ''reply-1'', content = ''gm'',
                        post_type = REPLY, related_trade_id = None, post_timestamp = 90000000\<rparr>,
      Sleep 2000,
      GetUnprocessedMentions,
      FetchFarcasterMentions]"
  by (simp add: processMentions_def processTwitterMention_def getUnprocessedMentions_def
      recordMention_def markMentionReplied_def recordPost_def invoke_def tryCatch_def
      repeatedMentionEnv_def sampleEnv_def sampleConfig_def sampleMention_def freshState_def
      newCalls_def Let_def)

theorem mention_dedup_witness:
  "fetchTwitterMentions repeatedMentionEnv [] = Inr [sampleMention, sampleMention]
   \<and> length (filter (isReplyToTweet ''1801'')
        (newCalls freshState (processMentions repeatedMentionEnv freshState))) = 1
   \<and> length (filter isGenerateReply
        (newCalls freshState (processMentions repeatedMentionEnv freshState))) = 1"
proof -
  have "fetchTwitterMentions repeatedMentionEnv [] = Inr [sampleMention, sampleMention]"
    by (simp add: repeatedMentionEnv_def)
  with mention_dedup [of freshState repeatedMentionEnv "[]" "[]"] show ?thesis
    by (simp add: repeated_mention_calls)
qed

section \<open>The daily summary timer\<close>

lemma lastDailySummary_tweetAndRecord [simp]:
  "lastDailySummary (snd (tweetAndRecord env t pt r s)) = lastDailySummary s"
  unfolding tweetAndRecord_def recordPost_def invoke_def
  by (auto simp: bindE_def split: sum.splits)

lemma lastDailySummary_castAndRecord [simp]:
  "lastDailySummary (snd (castAndRecord env t pt r s)) = lastDailySummary s"
  unfolding castAndRecord_def recordPost_def invoke_def
  by (auto simp: bindE_def split: sum.splits)

lemma lastDailySummary_summaryFanout [simp]:
  "lastDailySummary (summaryFanout env params s) = lastDailySummary s"
  unfolding summaryFanout_def tryCatch_def invoke_def Let_def
  by (auto simp: bindE_def split: sum.splits)





text \<open>
  Everything in an iteration but the daily summary leaves \<open>lastDailySummary\<close> as it was, so
  what an iteration does to the timer is what its daily summary does.
\<close>

lemma lastDailySummary_invoke [simp]: "lastDailySummary (snd (invoke c f s)) = lastDailySummary s"
  by (simp add: invoke_def)



lemma lastDailySummary_recordPost [simp]: "lastDailySummary (snd (recordPost env p s)) = lastDailySummary s"
  by (simp add: recordPost_def)

lemma lastDailySummary_entryFanout [simp]: "lastDailySummary (entryFanout env p i s) = lastDailySummary s"
  unfolding entryFanout_def tryCatch_def invoke_def Let_def
  by (auto simp: bindE_def split: sum.splits)

lemma lastDailySummary_exitFanout [simp]: "lastDailySummary (exitFanout env p i s) = lastDailySummary s"
  unfolding exitFanout_def tryCatch_def invoke_def Let_def
  by (auto simp: bindE_def split: sum.splits)

lemma lastDailySummary_buyDecision [simp]:
  "lastDailySummary (snd (buyDecision env mp d s)) = lastDailySummary s"
  unfolding buyDecision_def invoke_def Let_def
  by (auto simp: bindE_def split: sum.splits)





lemma lastDailySummary_positionWithPrice [simp]:
  "lastDailySummary (snd (positionWithPrice env t s)) = lastDailySummary s"
  unfolding positionWithPrice_def invoke_def
  by (auto simp: bindE_def split: sum.splits)

lemma lastDailySummary_mapAsync [simp]: "lastDailySummary (snd (mapAsync env ts s)) = lastDailySummary s"
proof (induction ts arbitrary: s)
  case Nil
  show ?case by simp
next
  case (Cons t ts)
  obtain r s1 where p: "positionWithPrice env t s = (r, s1)" by (cases "positionWithPrice env t s")
  obtain rs s2 where m: "mapAsync env ts s1 = (rs, s2)" by (cases "mapAsync env ts s1")
  from p have "lastDailySummary s1 = lastDailySummary s"
    using lastDailySummary_positionWithPrice [of env t s] by simp
  moreover from m have "lastDailySummary s2 = lastDailySummary s1"
    using Cons.IH [of s1] by simp
  ultimately show ?case using p m by simp
qed

lemma lastDailySummary_openPositionsWithPrices [simp]:
  "lastDailySummary (snd (openPositionsWithPrices env ts s)) = lastDailySummary s"
  using lastDailySummary_mapAsync [of env ts s]
  by (cases "mapAsync env ts s") (simp add: openPositionsWithPrices_def)

lemma lastDailySummary_postCommentary [simp]: "lastDailySummary (postCommentary env a s) = lastDailySummary s"
  unfolding postCommentary_def tryCatch_def invoke_def Let_def
  by (auto simp: bindE_def split: sum.splits)

lemma lastDailySummary_roundSummary [simp]: "lastDailySummary (roundSummary env p s) = lastDailySummary s"
  unfolding roundSummary_def tryCatch_def invoke_def
  by (auto simp: bindE_def split: sum.splits)

lemma lastDailySummary_tipDisbursement [simp]: "lastDailySummary (tipDisbursement env s) = lastDailySummary s"
  unfolding tipDisbursement_def tryCatch_def invoke_def Let_def
  by (auto simp: bindE_def split: sum.splits option.splits)

lemma lastDailySummary_processTwitterMention [simp]:
  "lastDailySummary (processTwitterMention env m s) = lastDailySummary s"
  unfolding processTwitterMention_def getUnprocessedMentions_def recordMention_def
    markMentionReplied_def recordPost_def invoke_def tryCatch_def Let_def
  by (auto simp: bindE_def split: sum.splits option.splits)

lemma lastDailySummary_processFarcasterMention [simp]:
  "lastDailySummary (processFarcasterMention env m s) = lastDailySummary s"
  unfolding processFarcasterMention_def getUnprocessedMentions_def recordMention_def
    markMentionReplied_def recordPost_def invoke_def tryCatch_def Let_def
  by (auto simp: bindE_def split: sum.splits option.splits)

lemma lastDailySummary_forEachTwitterMention [simp]:
  "lastDailySummary (forEachTwitterMention env ms s) = lastDailySummary s"
  by (induction ms arbitrary: s) simp_all

lemma lastDailySummary_forEachFarcasterMention [simp]:
  "lastDailySummary (forEachFarcasterMention env ms s) = lastDailySummary s"
  by (induction ms arbitrary: s) simp_all

lemma lastDailySummary_processMentions [simp]: "lastDailySummary (processMentions env s) = lastDailySummary s"
  unfolding processMentions_def tryCatch_def invoke_def
  by (auto simp: bindE_def split: sum.splits)










section \<open>Tip disbursement\<close>

text \<open>
  Claim C6. When the tip gate passes and a recipient is chosen, \<open>lastTipTime\<close> becomes
  the time read at the gate if \<^verbatim>\<open>sendTip\<close> succeeds, and stays as it was if \<^verbatim>\<open>sendTip\<close>
  throws.
\<close>

theorem tip_time_advances_iff_sent:
  assumes "\<not> disableTips (config env)"
      and "tipIntervalMs (config env) \<le> Date_now env (calls s) - lastTipTime s"
      and "pickTipRecipient env s = Some recipient" and "recipient \<noteq> []"
  shows "lastTipTime (tipDisbursement env s) =
           (case sendTip env recipient (tipAmountEth (config env)) (calls s) of
              Inr sent \<Rightarrow> Date_now env (calls s)
            | Inl e \<Rightarrow> lastTipTime s)
       \<and> newCalls s (tipDisbursement env s) = [SendTip recipient (tipAmountEth (config env))]"
  using assms unfolding tipDisbursement_def invoke_def tryCatch_def Let_def
  by (auto simp: bindE_def newCalls_def split: sum.splits)

lemma sample_pick: "pickTipRecipient sampleEnv freshState = Some ''0xB0B''"
  by (simp add: pickTipRecipient_def sampleEnv_def sampleConfig_def sample_products)

lemma sample_pick2: "pickTipRecipient tipDownEnv freshState = Some ''0xB0B''"
  by (simp add: pickTipRecipient_def tipDownEnv_def sampleEnv_def sampleConfig_def
      sample_products)

theorem tip_time_advances_iff_sent_witness:
  "lastTipTime freshState = 0
   \<and> pickTipRecipient sampleEnv freshState = Some ''0xB0B''
   \<and> lastTipTime (tipDisbursement sampleEnv freshState) = 90000000
   \<and> pickTipRecipient tipDownEnv freshState = Some ''0xB0B''
   \<and> lastTipTime (tipDisbursement tipDownEnv freshState) = 0"
proof -
  have a: "\<not> disableTips (config sampleEnv)" "\<not> disableTips (config tipDownEnv)"
    by (simp_all add: tipDownEnv_def sampleEnv_def sampleConfig_def)
  have b: "tipIntervalMs (config sampleEnv)
             \<le> Date_now sampleEnv (calls freshState) - lastTipTime freshState"
    "tipIntervalMs (config tipDownEnv)
             \<le> Date_now tipDownEnv (calls freshState) - lastTipTime freshState"
    by (simp_all add: tipDownEnv_def sampleEnv_def sampleConfig_def freshState_def)
  have c: "''0xB0B'' \<noteq> []" by simp
  have d: "sendTip sampleEnv r x h = Inr ()" "sendTip tipDownEnv r x h = Inl ''insufficient funds''"
    "Date_now sampleEnv h = 90000000" "lastTipTime freshState = 0" for r x h
    by (simp_all add: tipDownEnv_def sampleEnv_def freshState_def)
  from tip_time_advances_iff_sent [OF a(1) b(1) sample_pick c]
       tip_time_advances_iff_sent [OF a(2) b(2) sample_pick2 c]
  show ?thesis
    by (simp add: sample_pick sample_pick2 d)
qed

lemma iteration_ends_with_tip:
  assumes "fst (iterationBody env s) = Inr u"
  shows "\<exists>s'. snd (iterationBody env s) = tipDisbursement env s'"
  using assms unfolding iterationBody_def Let_def
  by (auto simp: bindE_def split: sum.splits prod.splits)

section \<open>Shutdown\<close>

lemma exited_stays: "exitStatus p \<noteq> None \<Longrightarrow> foldl step p evs = p"
  by (induction evs) (simp_all add: step_def)

text \<open>
  Claim C9. The handlers are written to stop the loop gracefully: they set \<open>isRunning\<close> to
  false, the flag that the loop tests between two iterations, and the steps inside an
  iteration do not read it. But they go on to call \<^verbatim>\<open>process.exit(0)\<close>, which leaves the
  flag dead: when a shutdown signal is delivered to a process that has not exited, the
  process has exited with status 0, whatever is delivered afterwards changes nothing, and
  an iteration in progress stays where it was suspended.
\<close>

theorem shutdown_exits_at_once:
  assumes "exitStatus p = None"
  shows "foldl step p (Deliver sig # evs) = p\<lparr>isRunning := False, exitStatus := Some 0\<rparr>
       \<and> (\<forall>n k b. suspendedAt p = InIteration n
             \<longrightarrow> step (p\<lparr>isRunning := b\<rparr>) (Settle k) = (step p (Settle k))\<lparr>isRunning := b\<rparr>)"
proof -
  have "step p (Deliver sig) = p\<lparr>isRunning := False, exitStatus := Some 0\<rparr>"
    using assms by (simp add: step_def onSignal_def)
  moreover have "foldl step (p\<lparr>isRunning := False, exitStatus := Some 0\<rparr>) evs
      = p\<lparr>isRunning := False, exitStatus := Some 0\<rparr>"
    by (rule exited_stays) simp
  moreover have "step (p\<lparr>isRunning := b\<rparr>) (Settle k) = (step p (Settle k))\<lparr>isRunning := b\<rparr>"
    if "suspendedAt p = InIteration n" for n k b
    using that assms by (cases n) (simp_all add: step_def)
  ultimately show ?thesis by simp
qed

theorem shutdown_exits_at_once_witness:
  "exitStatus midIteration = None \<and> suspendedAt midIteration = InIteration 3
   \<and> foldl step midIteration [Deliver SIGTERM, Settle 5, Settle 5, Settle 5, Settle 5]
       = midIteration\<lparr>isRunning := False, exitStatus := Some 0\<rparr>
   \<and> suspendedAt (midIteration\<lparr>isRunning := False, exitStatus := Some 0\<rparr>) = InIteration 3"
proof -
  have a: "exitStatus midIteration = None" "suspendedAt midIteration = InIteration 3"
    by (simp_all add: midIteration_def)
  from shutdown_exits_at_once [OF a(1), of SIGTERM "[Settle 5, Settle 5, Settle 5, Settle 5]"] a
  show ?thesis by simp
qed

text \<open>
  Claim C9, at a SIGINT delivered while an iteration has three awaits to go: the process
  ends with the iteration still suspended there, where the claim has it run to completion;
  without the signal the same iteration runs to its end.
\<close>

theorem shutdown_counterexample:
  "suspendedAt midIteration = InIteration 3
   \<and> step midIteration (Deliver SIGINT)
       = \<lparr>isRunning = False, exitStatus = Some 0, suspendedAt = InIteration 3,
          iterationsCompleted = 0\<rparr>
   \<and> foldl step midIteration [Deliver SIGINT, Settle 5, Settle 5, Settle 5, Settle 5, Settle 5]
       = \<lparr>isRunning = False, exitStatus = Some 0, suspendedAt = InIteration 3,
          iterationsCompleted = 0\<rparr>
   \<and> foldl step midIteration [Settle 5, Settle 5, Settle 5, Settle 5]
       = \<lparr>isRunning = True, exitStatus = None, suspendedAt = Sleeping,
          iterationsCompleted = 1\<rparr>"
  by (simp add: midIteration_def step_def onSignal_def)

end
